theory Spec2Isabelle
  imports Complex_Main "HOL-Library.Word"
begin

section \<open>ESP32 menu system: data model\<close>

text \<open>
  The development follows \<^verbatim>\<open>ESP32_MenuSystem.h\<close> and \<^verbatim>\<open>ESP32_MenuSystem.cpp\<close>.

  Conventions of the embedding:
  \<^item> a C++ \<^verbatim>\<open>float\<close> is the real number it stands for; float addition and the
    conversion from \<^verbatim>\<open>int\<close> round to single precision;
  \<^item> C++ \<^verbatim>\<open>int\<close> and \<^verbatim>\<open>long\<close> values are integers; every arithmetic step on them below
    stays within a few units of values the program already holds
    (\<^verbatim>\<open>cursorPosition\<close> moves inside \<open>[-1, 16]\<close>, the encoder accumulator inside
    \<open>[-|sensitivity|, |sensitivity|]\<close>), so no wrap-around is written out;
  \<^item> \<^verbatim>\<open>unsigned long\<close> time stamps are 32-bit words, whose subtraction wraps as on
    the ESP32;
  \<^item> an array together with its element count (\<^verbatim>\<open>items\<close>/\<^verbatim>\<open>itemCount\<close>,
    \<^verbatim>\<open>menus\<close>/\<^verbatim>\<open>menuCount\<close>) is the list of its first count elements;
  \<^item> a \<^verbatim>\<open>ValueAdjuster*\<close> is an address into a store of adjuster objects, \<open>None\<close> being
    \<^verbatim>\<open>nullptr\<close>; the external variable an adjuster is bound to (\<^verbatim>\<open>*valuePtr\<close>) is
    kept inside the adjuster object;
  \<^item> a \<^verbatim>\<open>MenuCallback*\<close> is an opaque identifier; executing it is recorded in a trace
    and has no effect on the menu system itself;
  \<^item> undefined behaviour of the C++ program (an array read outside its bounds, an
    integer remainder by zero, a float converted to an \<^verbatim>\<open>int\<close> that cannot hold it) is a
    \<open>fault\<close>.
\<close>

datatype ButtonTriggerType = TRIGGER_LOW | TRIGGER_HIGH

datatype InputMode = INPUT_BUTTONS | INPUT_ENCODER

datatype PinLevel = LOW | HIGH

definition ADJUSTER_TYPE_FLOAT :: int where "ADJUSTER_TYPE_FLOAT = 0"
definition ADJUSTER_TYPE_INT :: int where "ADJUSTER_TYPE_INT = 1"
definition ADJUSTER_TYPE_BOOL :: int where "ADJUSTER_TYPE_BOOL = 2"

definition MAX_MENU_ITEMS :: int where "MAX_MENU_ITEMS = 16"
definition MAX_MENU_DEPTH :: int where "MAX_MENU_DEPTH = 32"

subsection \<open>Value adjusters\<close>

record FloatValueAdjuster =
  fValue :: real
  fIncrement :: real
  fMinValue :: real
  fMaxValue :: real
  fDecimalPlaces :: int
  fUnit :: string
  fWrapAround :: bool

record IntValueAdjuster =
  iValue :: int
  iIncrement :: int
  iMinValue :: int
  iMaxValue :: int
  iUnit :: string
  iWrapAround :: bool

text \<open>
  The private field \<^verbatim>\<open>adjusterType\<close> of \<^verbatim>\<open>BoolValueAdjuster\<close> is set to
  \<^verbatim>\<open>ADJUSTER_TYPE_BOOL\<close> by the constructor and never written again, so \<open>getType\<close>
  returns the constant.
\<close>

record BoolValueAdjuster =
  bValue :: bool
  tempValue :: bool
  trueLabel :: string
  falseLabel :: string
  description :: string

datatype ValueAdjuster =
    FloatAdj FloatValueAdjuster
  | IntAdj IntValueAdjuster
  | BoolAdj BoolValueAdjuster

subsection \<open>Single-precision arithmetic\<close>

text \<open>
  A \<^verbatim>\<open>float\<close> is the real number it stands for. The result of an operation is the exact
  result rounded to the nearest number with a 24-bit significand, ties going to the
  even significand; below \<open>2\<^sup>-\<^sup>1\<^sup>2\<^sup>6\<close> the spacing stays \<open>2\<^sup>-\<^sup>1\<^sup>4\<^sup>9\<close> (subnormal numbers).
  Not-a-number and the infinities are not modelled: a result beyond the largest finite
  float stays the rounded real, which like \<open>+\<infinity>\<close> lies above every finite float and
  outside the range of \<^verbatim>\<open>int\<close>.
\<close>

definition round_half_even :: "real \<Rightarrow> int" where
  "round_half_even x =
     (if x - of_int \<lfloor>x\<rfloor> < 1 / 2 then \<lfloor>x\<rfloor>
      else if x - of_int \<lfloor>x\<rfloor> > 1 / 2 then \<lfloor>x\<rfloor> + 1
      else if even \<lfloor>x\<rfloor> then \<lfloor>x\<rfloor> else \<lfloor>x\<rfloor> + 1)"

text \<open>The exponent of the last place of the floats around \<open>x\<close>.\<close>

definition ulp_exponent :: "real \<Rightarrow> int" where
  "ulp_exponent x = max (\<lfloor>log 2 \<bar>x\<bar>\<rfloor> - 23) (- 149)"

definition round_float :: "real \<Rightarrow> real" where
  "round_float x =
     (if x = 0 then 0
      else of_int (round_half_even (x / 2 powr of_int (ulp_exponent x)))
             * 2 powr of_int (ulp_exponent x))"

text \<open>\<^verbatim>\<open>a + b\<close> on two floats.\<close>

definition fadd :: "real \<Rightarrow> real \<Rightarrow> real" where
  "fadd a b = round_float (a + b)"

text \<open>\<^verbatim>\<open>static_cast<float>(int)\<close>\<close>

definition static_cast_float :: "int \<Rightarrow> real" where
  "static_cast_float i = round_float (of_int i)"

definition INT_MIN :: int where "INT_MIN = - (2 ^ 31)"
definition INT_MAX :: int where "INT_MAX = 2 ^ 31 - 1"

datatype fault = OutOfBounds | DivideByZero | UndefinedConversion

text \<open>
  \<^verbatim>\<open>static_cast<int>(float)\<close>: the fractional part is discarded (towards zero); the
  behaviour is undefined when the result does not fit an \<^verbatim>\<open>int\<close> (32 bits on the ESP32).
\<close>

definition static_cast_int :: "real \<Rightarrow> fault + int" where
  "static_cast_int x =
     (let t = (if 0 \<le> x then \<lfloor>x\<rfloor> else \<lceil>x\<rceil>)
      in if INT_MIN \<le> t \<and> t \<le> INT_MAX then Inr t else Inl UndefinedConversion)"

definition FloatValueAdjuster_setValue :: "real \<Rightarrow> FloatValueAdjuster \<Rightarrow> FloatValueAdjuster" where
  "FloatValueAdjuster_setValue newValue a =
     (if fWrapAround a then
        (if newValue > fMaxValue a then a\<lparr>fValue := fMinValue a\<rparr>
         else if newValue < fMinValue a then a\<lparr>fValue := fMaxValue a\<rparr>
         else a\<lparr>fValue := newValue\<rparr>)
      else
        (let v1 = (if newValue < fMinValue a then fMinValue a else newValue);
             v2 = (if v1 > fMaxValue a then fMaxValue a else v1)
         in a\<lparr>fValue := v2\<rparr>))"

definition IntValueAdjuster_setValue ::
  "real \<Rightarrow> IntValueAdjuster \<Rightarrow> fault + IntValueAdjuster" where
  "IntValueAdjuster_setValue newValue a =
     (case static_cast_int newValue of
        Inl f \<Rightarrow> Inl f
      | Inr intValue \<Rightarrow>
          if iWrapAround a then
            (if intValue > iMaxValue a then Inr (a\<lparr>iValue := iMinValue a\<rparr>)
             else if intValue < iMinValue a then Inr (a\<lparr>iValue := iMaxValue a\<rparr>)
             else Inr (a\<lparr>iValue := intValue\<rparr>))
          else
            (let v1 = (if intValue < iMinValue a then iMinValue a else intValue);
                 v2 = (if v1 > iMaxValue a then iMaxValue a else v1)
             in Inr (a\<lparr>iValue := v2\<rparr>)))"

text \<open>\<^verbatim>\<open>BoolValueAdjuster::setValue\<close> ignores its argument and toggles the stored value.\<close>

definition BoolValueAdjuster_setValue :: "real \<Rightarrow> BoolValueAdjuster \<Rightarrow> BoolValueAdjuster" where
  "BoolValueAdjuster_setValue newValue a = a\<lparr>bValue := \<not> bValue a\<rparr>"

definition setTempValue :: "bool \<Rightarrow> BoolValueAdjuster \<Rightarrow> BoolValueAdjuster" where
  "setTempValue v a = a\<lparr>tempValue := v\<rparr>"

definition getTempValue :: "BoolValueAdjuster \<Rightarrow> bool" where
  "getTempValue a = tempValue a"

definition applyTempValue :: "BoolValueAdjuster \<Rightarrow> BoolValueAdjuster" where
  "applyTempValue a = a\<lparr>bValue := tempValue a\<rparr>"

definition isTrue :: "BoolValueAdjuster \<Rightarrow> bool" where
  "isTrue a = bValue a"

fun getType :: "ValueAdjuster \<Rightarrow> int" where
  "getType (FloatAdj a) = ADJUSTER_TYPE_FLOAT"
| "getType (IntAdj a) = ADJUSTER_TYPE_INT"
| "getType (BoolAdj a) = ADJUSTER_TYPE_BOOL"

text \<open>
  The virtual methods of \<^verbatim>\<open>ValueAdjuster\<close>. The integer adjuster converts its fields
  with \<^verbatim>\<open>static_cast<float>\<close>; only its \<open>setValue\<close> can have undefined behaviour.
\<close>

fun getValue :: "ValueAdjuster \<Rightarrow> real" where
  "getValue (FloatAdj a) = fValue a"
| "getValue (IntAdj a) = static_cast_float (iValue a)"
| "getValue (BoolAdj a) = (if bValue a then 1 else 0)"

fun setValue :: "real \<Rightarrow> ValueAdjuster \<Rightarrow> fault + ValueAdjuster" where
  "setValue v (FloatAdj a) = Inr (FloatAdj (FloatValueAdjuster_setValue v a))"
| "setValue v (IntAdj a) =
     (case IntValueAdjuster_setValue v a of Inl f \<Rightarrow> Inl f | Inr a' \<Rightarrow> Inr (IntAdj a'))"
| "setValue v (BoolAdj a) = Inr (BoolAdj (BoolValueAdjuster_setValue v a))"

fun getIncrement :: "ValueAdjuster \<Rightarrow> real" where
  "getIncrement (FloatAdj a) = fIncrement a"
| "getIncrement (IntAdj a) = static_cast_float (iIncrement a)"
| "getIncrement (BoolAdj a) = 1"


fun getMax :: "ValueAdjuster \<Rightarrow> real" where
  "getMax (FloatAdj a) = fMaxValue a"
| "getMax (IntAdj a) = static_cast_float (iMaxValue a)"
| "getMax (BoolAdj a) = 1"

subsection \<open>Menus and the menu system\<close>

text \<open>
  Fields that only the renderer reads (fonts, layout, display offset, the screen-info
  hook) and the pin numbers are left out. \<open>menu_id\<close> is the field \<^verbatim>\<open>id\<close> of
  \<^verbatim>\<open>Menu\<close>.
\<close>

record MenuItem =
  name :: string
  nextMenuId :: int
  callback :: "nat option"
  valueAdjuster :: "nat option"

record Menu =
  title :: string
  items :: "MenuItem list"
  menu_id :: int
  maxVisibleItems :: int

definition itemCount :: "Menu \<Rightarrow> int" where
  "itemCount m = int (length (items m))"

text \<open>
  What the input handlers did, in order: a debounced button press that was dispatched,
  an encoder step that was dispatched (with its direction \<open>1\<close> or \<open>-1\<close>), a callback
  that was executed. The trace is an observation of the run, not a field of the class.
\<close>

datatype effect =
    ButtonUp
  | ButtonDown
  | ButtonOk
  | EncoderStep int
  | EncoderPress
  | Executed nat

text \<open>
  \<open>encoder\<close> is the owned encoder object, reduced to its position counter
  (\<open>None\<close> is \<^verbatim>\<open>nullptr\<close>); \<open>heap\<close> is the store of adjuster objects.
  \<open>adjusterFault\<close> is not a field of the class: it records undefined behaviour met
  inside a call of an adjuster's \<open>setValue\<close>.
\<close>

record ESP32_MenuSystem =
  menus :: "Menu list"
  currentMenuIndex :: int
  cursorPosition :: int
  inputMode :: InputMode
  buttonUpState :: bool
  buttonDownState :: bool
  buttonOkState :: bool
  lastButtonUpState :: bool
  lastButtonDownState :: bool
  lastButtonOkState :: bool
  buttonUpTriggerType :: ButtonTriggerType
  buttonDownTriggerType :: ButtonTriggerType
  buttonOkTriggerType :: ButtonTriggerType
  encoderButtonTriggerType :: ButtonTriggerType
  encoder :: "int option"
  lastEncoderValue :: int
  encoderButtonState :: bool
  lastEncoderButtonState :: bool
  encoderSensitivity :: int
  encoderAccumulator :: int
  isValueAdjustMode :: bool
  currentValueAdjuster :: "nat option"
  lastDebounceTime :: "32 word"
  debounceDelay :: "32 word"
  previousMillis :: "32 word"
  interval :: "32 word"
  errorCode :: int
  errorMessage :: string
  heap :: "nat \<Rightarrow> ValueAdjuster"
  trace :: "effect list"
  adjusterFault :: "fault option"

definition menuCount :: "ESP32_MenuSystem \<Rightarrow> int" where
  "menuCount s = int (length (menus s))"

subsection \<open>Menu management\<close>

definition addItem :: "string \<Rightarrow> int \<Rightarrow> nat option \<Rightarrow> nat option \<Rightarrow> Menu \<Rightarrow> Menu" where
  "addItem nm nextId cb adjuster m =
     (if itemCount m < MAX_MENU_ITEMS then
        m\<lparr>items := items m @
            [\<lparr>name = take 15 nm, nextMenuId = nextId, callback = cb, valueAdjuster = adjuster\<rparr>]\<rparr>
      else m)"

definition addMenu :: "string \<Rightarrow> ESP32_MenuSystem \<Rightarrow> int \<times> ESP32_MenuSystem" where
  "addMenu ttl s =
     (if menuCount s < MAX_MENU_DEPTH then
        (menuCount s,
         s\<lparr>menus := menus s @
            [\<lparr>title = take 15 ttl, items = [], menu_id = menuCount s, maxVisibleItems = 0\<rparr>]\<rparr>)
      else (-1, s))"

definition addMenuItem ::
  "int \<Rightarrow> string \<Rightarrow> int \<Rightarrow> nat option \<Rightarrow> ESP32_MenuSystem \<Rightarrow> ESP32_MenuSystem" where
  "addMenuItem menuIndex nm nextId cb s =
     (if menuIndex \<ge> 0 \<and> menuIndex < menuCount s then
        s\<lparr>menus := (menus s)[nat menuIndex :=
             addItem nm nextId cb None (menus s ! nat menuIndex)]\<rparr>
      else s)"

definition addValueMenuItem ::
  "int \<Rightarrow> string \<Rightarrow> nat \<Rightarrow> ESP32_MenuSystem \<Rightarrow> ESP32_MenuSystem" where
  "addValueMenuItem menuIndex nm adjuster s =
     (if menuIndex \<ge> 0 \<and> menuIndex < menuCount s then
        s\<lparr>menus := (menus s)[nat menuIndex :=
             addItem nm (-1) None (Some adjuster) (menus s ! nat menuIndex)]\<rparr>
      else s)"

text \<open>The loop of \<^verbatim>\<open>findMenuById\<close>, started at index \<open>i\<close> on the menus from \<open>i\<close> on.\<close>

fun findMenuById_loop :: "Menu list \<Rightarrow> int \<Rightarrow> int \<Rightarrow> int" where
  "findMenuById_loop [] i target = -1"
| "findMenuById_loop (m # ms) i target =
     (if menu_id m = target then i else findMenuById_loop ms (i + 1) target)"

definition findMenuById :: "ESP32_MenuSystem \<Rightarrow> int \<Rightarrow> int" where
  "findMenuById s target = findMenuById_loop (menus s) 0 target"

definition getCurrentMenu :: "ESP32_MenuSystem \<Rightarrow> Menu option" where
  "getCurrentMenu s =
     (if currentMenuIndex s \<ge> 0 \<and> currentMenuIndex s < menuCount s
      then Some (menus s ! nat (currentMenuIndex s)) else None)"

definition getCurrentMenuId :: "ESP32_MenuSystem \<Rightarrow> int" where
  "getCurrentMenuId s =
     (if currentMenuIndex s \<ge> 0 \<and> currentMenuIndex s < menuCount s
      then menu_id (menus s ! nat (currentMenuIndex s)) else -1)"

subsection \<open>Errors\<close>

definition setError :: "int \<Rightarrow> string \<Rightarrow> ESP32_MenuSystem \<Rightarrow> ESP32_MenuSystem" where
  "setError code message s = s\<lparr>errorCode := code, errorMessage := take 63 message\<rparr>"

definition clearError :: "ESP32_MenuSystem \<Rightarrow> ESP32_MenuSystem" where
  "clearError s = s\<lparr>errorCode := 0, errorMessage := []\<rparr>"

subsection \<open>Navigation and value adjustment\<close>

text \<open>
  The adjuster that the test \<^verbatim>\<open>isValueAdjustMode && currentValueAdjuster\<close> lets through:
  \<open>Some p\<close> when the test succeeds with \<^verbatim>\<open>currentValueAdjuster\<close> at address \<open>p\<close>.
\<close>

definition adjustTarget :: "ESP32_MenuSystem \<Rightarrow> nat option" where
  "adjustTarget s = (if isValueAdjustMode s then currentValueAdjuster s else None)"

text \<open>
  A method call on the adjuster object at address \<open>p\<close>: the object is replaced by the
  object the method leaves. The handlers that make such calls return no fault of
  their own; when the method has undefined behaviour, the fault is recorded in
  \<open>adjusterFault\<close> and the object is left as it was. From a state with \<open>adjusterFault\<close>
  set, the model says nothing about what the program does.
\<close>

definition updateAdjuster ::
  "nat \<Rightarrow> (ValueAdjuster \<Rightarrow> fault + ValueAdjuster) \<Rightarrow> ESP32_MenuSystem
     \<Rightarrow> ESP32_MenuSystem" where
  "updateAdjuster p f s =
     (case f (heap s p) of
        Inr adj \<Rightarrow> s\<lparr>heap := (heap s)(p := adj)\<rparr>
      | Inl e \<Rightarrow> s\<lparr>adjusterFault := Some e\<rparr>)"

text \<open>
  \<^verbatim>\<open>value = getValue(); increment = getIncrement(); setValue(value + increment)\<close>
  on the adjuster object itself, and likewise \<^verbatim>\<open>value - increment\<close> and
  \<^verbatim>\<open>value + (increment * movementDir)\<close>. The direction \<open>dir\<close> is \<open>1\<close> or \<open>-1\<close>, so the
  product is exact in float arithmetic (and subtracting is adding the negative); the
  sum is rounded.
\<close>

definition stepValue :: "real \<Rightarrow> ValueAdjuster \<Rightarrow> fault + ValueAdjuster" where
  "stepValue dir adj = setValue (fadd (getValue adj) (getIncrement adj * dir)) adj"

text \<open>
  In \<open>moveUp\<close> and \<open>moveDown\<close> the test \<^verbatim>\<open>getType() == ADJUSTER_TYPE_BOOL\<close> followed by
  the \<^verbatim>\<open>static_cast\<close> is the case distinction on the adjuster's class.
\<close>

definition moveUp :: "ESP32_MenuSystem \<Rightarrow> ESP32_MenuSystem" where
  "moveUp s =
     (case adjustTarget s of
        Some p \<Rightarrow>
          (case heap s p of
             BoolAdj b \<Rightarrow> updateAdjuster p (\<lambda>_. Inr (BoolAdj (setTempValue True b))) s
           | adj \<Rightarrow> updateAdjuster p (stepValue 1) s)
      | None \<Rightarrow>
          (if cursorPosition s > 0 then s\<lparr>cursorPosition := cursorPosition s - 1\<rparr>
           else (case getCurrentMenu s of
                   Some m \<Rightarrow> s\<lparr>cursorPosition := itemCount m - 1\<rparr>
                 | None \<Rightarrow> s)))"

definition moveDown :: "ESP32_MenuSystem \<Rightarrow> ESP32_MenuSystem" where
  "moveDown s =
     (case adjustTarget s of
        Some p \<Rightarrow>
          (case heap s p of
             BoolAdj b \<Rightarrow> updateAdjuster p (\<lambda>_. Inr (BoolAdj (setTempValue False b))) s
           | adj \<Rightarrow> updateAdjuster p (stepValue (-1)) s)
      | None \<Rightarrow>
          (case getCurrentMenu s of
             Some m \<Rightarrow>
               (if cursorPosition s < itemCount m - 1
                then s\<lparr>cursorPosition := cursorPosition s + 1\<rparr>
                else s\<lparr>cursorPosition := 0\<rparr>)
           | None \<Rightarrow> s))"

definition enterValueAdjustMode :: "nat \<Rightarrow> ESP32_MenuSystem \<Rightarrow> ESP32_MenuSystem" where
  "enterValueAdjustMode p s =
     (let s1 = s\<lparr>isValueAdjustMode := True, currentValueAdjuster := Some p\<rparr>;
          s2 = (case heap s1 p of
                  BoolAdj b \<Rightarrow> updateAdjuster p (\<lambda>_. Inr (BoolAdj (setTempValue (isTrue b) b))) s1
                | _ \<Rightarrow> s1)
      in if inputMode s2 = INPUT_ENCODER then
           (case encoder s2 of
              Some count \<Rightarrow> s2\<lparr>lastEncoderValue := count\<rparr>
            | None \<Rightarrow> s2)
         else s2)"

definition exitValueAdjustMode :: "ESP32_MenuSystem \<Rightarrow> ESP32_MenuSystem" where
  "exitValueAdjustMode s = s\<lparr>isValueAdjustMode := False, currentValueAdjuster := None\<rparr>"

text \<open>
  \<open>select\<close> reads \<^verbatim>\<open>items[cursorPosition]\<close> after testing only
  \<^verbatim>\<open>cursorPosition < itemCount\<close>: a negative cursor reads outside the array.
\<close>

definition select :: "ESP32_MenuSystem \<Rightarrow> fault + ESP32_MenuSystem" where
  "select s =
     (case getCurrentMenu s of
        None \<Rightarrow> Inr s
      | Some m \<Rightarrow>
          if cursorPosition s < itemCount m then
            (if cursorPosition s < 0 then Inl OutOfBounds
             else
               (let selectedItem = items m ! nat (cursorPosition s) in
                case valueAdjuster selectedItem of
                  Some p \<Rightarrow> Inr (enterValueAdjustMode p s)
                | None \<Rightarrow>
                    (let s1 = (case callback selectedItem of
                                 Some cb \<Rightarrow> s\<lparr>trace := trace s @ [Executed cb]\<rparr>
                               | None \<Rightarrow> s)
                     in if nextMenuId selectedItem \<ge> 0 then
                          (let nextMenuIndex = findMenuById s1 (nextMenuId selectedItem)
                           in if nextMenuIndex \<ge> 0
                              then Inr (s1\<lparr>currentMenuIndex := nextMenuIndex, cursorPosition := 0\<rparr>)
                              else Inr s1)
                        else Inr s1)))
          else Inr s)"

definition goBack :: "ESP32_MenuSystem \<Rightarrow> ESP32_MenuSystem" where
  "goBack s =
     (if currentMenuIndex s > 0 then s\<lparr>currentMenuIndex := 0, cursorPosition := 0\<rparr> else s)"

definition setCurrentMenu :: "int \<Rightarrow> ESP32_MenuSystem \<Rightarrow> ESP32_MenuSystem" where
  "setCurrentMenu menuId s =
     (let menuIndex = findMenuById s menuId
      in if menuIndex \<ge> 0 then s\<lparr>currentMenuIndex := menuIndex, cursorPosition := 0\<rparr> else s)"

subsection \<open>Input handling\<close>

text \<open>
  One sample of the button pins, with the value \<^verbatim>\<open>millis()\<close> returns in that call of
  \<^verbatim>\<open>checkButtons\<close>.
\<close>

record ButtonSample =
  pinUp :: PinLevel
  pinDown :: PinLevel
  pinOk :: PinLevel
  millis :: "32 word"

text \<open>
  \<^verbatim>\<open>(trigger == TRIGGER_LOW) ? (digitalRead(pin) == LOW) : (digitalRead(pin) == HIGH)\<close>
\<close>

definition readButton :: "ButtonTriggerType \<Rightarrow> PinLevel \<Rightarrow> bool" where
  "readButton trigger level = (if trigger = TRIGGER_LOW then level = LOW else level = HIGH)"

text \<open>
  The body run on a debounced press of the OK button and of the encoder button (the two
  handlers hold the same text).
\<close>

definition confirmPress :: "ESP32_MenuSystem \<Rightarrow> fault + ESP32_MenuSystem" where
  "confirmPress s =
     (if errorCode s > 0 then Inr (clearError s)
      else
        (case adjustTarget s of
           Some p \<Rightarrow>
             (case heap s p of
                BoolAdj b \<Rightarrow>
                  Inr (exitValueAdjustMode (updateAdjuster p (\<lambda>_. Inr (BoolAdj (applyTempValue b))) s))
              | _ \<Rightarrow> Inr (exitValueAdjustMode s))
         | None \<Rightarrow> select s))"

text \<open>The three blocks of \<^verbatim>\<open>checkButtons\<close>, in the order of the source.\<close>

definition checkUpButton :: "bool \<Rightarrow> 32 word \<Rightarrow> ESP32_MenuSystem \<Rightarrow> ESP32_MenuSystem" where
  "checkUpButton currentUpState currentMillis s =
     (let s1 = (if currentUpState \<noteq> lastButtonUpState s
                then s\<lparr>lastDebounceTime := currentMillis\<rparr> else s)
      in if currentMillis - lastDebounceTime s1 > debounceDelay s1 then
           (if currentUpState \<noteq> buttonUpState s1 then
              (let s2 = s1\<lparr>buttonUpState := currentUpState\<rparr>
               in if buttonUpState s2 then
                    (let s3 = s2\<lparr>trace := trace s2 @ [ButtonUp]\<rparr>
                     in case adjustTarget s3 of
                          Some p \<Rightarrow> updateAdjuster p (stepValue 1) s3
                        | None \<Rightarrow> moveUp s3)
                  else s2)
            else s1)
         else s1)"

definition checkDownButton :: "bool \<Rightarrow> 32 word \<Rightarrow> ESP32_MenuSystem \<Rightarrow> ESP32_MenuSystem" where
  "checkDownButton currentDownState currentMillis s =
     (let s1 = (if currentDownState \<noteq> lastButtonDownState s
                then s\<lparr>lastDebounceTime := currentMillis\<rparr> else s)
      in if currentMillis - lastDebounceTime s1 > debounceDelay s1 then
           (if currentDownState \<noteq> buttonDownState s1 then
              (let s2 = s1\<lparr>buttonDownState := currentDownState\<rparr>
               in if buttonDownState s2 then
                    (let s3 = s2\<lparr>trace := trace s2 @ [ButtonDown]\<rparr>
                     in case adjustTarget s3 of
                          Some p \<Rightarrow> updateAdjuster p (stepValue (-1)) s3
                        | None \<Rightarrow> moveDown s3)
                  else s2)
            else s1)
         else s1)"

definition checkOkButton ::
  "bool \<Rightarrow> 32 word \<Rightarrow> ESP32_MenuSystem \<Rightarrow> fault + ESP32_MenuSystem" where
  "checkOkButton currentOkState currentMillis s =
     (let s1 = (if currentOkState \<noteq> lastButtonOkState s
                then s\<lparr>lastDebounceTime := currentMillis\<rparr> else s)
      in if currentMillis - lastDebounceTime s1 > debounceDelay s1 then
           (if currentOkState \<noteq> buttonOkState s1 then
              (let s2 = s1\<lparr>buttonOkState := currentOkState\<rparr>
               in if buttonOkState s2 then confirmPress (s2\<lparr>trace := trace s2 @ [ButtonOk]\<rparr>)
                  else Inr s2)
            else Inr s1)
         else Inr s1)"

definition checkButtons :: "ButtonSample \<Rightarrow> ESP32_MenuSystem \<Rightarrow> fault + ESP32_MenuSystem" where
  "checkButtons inp s =
     (if inputMode s \<noteq> INPUT_BUTTONS then Inr s
      else
        (let currentUpState = readButton (buttonUpTriggerType s) (pinUp inp);
             currentDownState = readButton (buttonDownTriggerType s) (pinDown inp);
             currentOkState = readButton (buttonOkTriggerType s) (pinOk inp);
             currentMillis = millis inp;
             s1 = checkUpButton currentUpState currentMillis s;
             s2 = checkDownButton currentDownState currentMillis s1
         in case checkOkButton currentOkState currentMillis s2 of
              Inl f \<Rightarrow> Inl f
            | Inr s3 \<Rightarrow>
                Inr (s3\<lparr>lastButtonUpState := currentUpState,
                         lastButtonDownState := currentDownState,
                         lastButtonOkState := currentOkState\<rparr>)))"

text \<open>C++ \<^verbatim>\<open>%\<close> on integers: the remainder of the division that truncates towards zero.\<close>

definition c_rem :: "int \<Rightarrow> int \<Rightarrow> int" where
  "c_rem a b = sgn a * (\<bar>a\<bar> mod \<bar>b\<bar>)"

text \<open>
  \<^verbatim>\<open>handleEncoderMovement\<close> reads the encoder's counter, here the content of \<open>encoder\<close>.
\<close>

definition handleEncoderMovement :: "ESP32_MenuSystem \<Rightarrow> fault + ESP32_MenuSystem" where
  "handleEncoderMovement s =
     (if inputMode s \<noteq> INPUT_ENCODER then Inr s
      else
        (case encoder s of
           None \<Rightarrow> Inr s
         | Some currentEncoderValue \<Rightarrow>
             if currentEncoderValue \<noteq> lastEncoderValue s then
               (let encoderDir = (if currentEncoderValue > lastEncoderValue s then 1 else -1);
                    s1 = s\<lparr>encoderAccumulator := encoderAccumulator s + encoderDir\<rparr>
                in if \<bar>encoderAccumulator s1\<bar> \<ge> encoderSensitivity s1 then
                     (let movementDir = (if encoderAccumulator s1 > 0 then 1 else -1 :: int);
                          s2 = s1\<lparr>trace := trace s1 @ [EncoderStep movementDir]\<rparr>;
                          s3 = (case adjustTarget s2 of
                                  Some p \<Rightarrow>
                                    (case heap s2 p of
                                       BoolAdj b \<Rightarrow>
                                         updateAdjuster p
                                           (\<lambda>_. Inr (BoolAdj (setTempValue (movementDir > 0) b))) s2
                                     | adj \<Rightarrow>
                                         updateAdjuster p (stepValue (real_of_int movementDir)) s2)
                                | None \<Rightarrow>
                                    (if movementDir > 0 then moveDown s2 else moveUp s2))
                      in if encoderSensitivity s3 = 0 then Inl DivideByZero
                         else Inr (s3\<lparr>encoderAccumulator :=
                                         c_rem (encoderAccumulator s3) (encoderSensitivity s3),
                                       lastEncoderValue := currentEncoderValue\<rparr>))
                   else Inr (s1\<lparr>lastEncoderValue := currentEncoderValue\<rparr>))
             else Inr s))"

text \<open>
  \<^verbatim>\<open>handleButtonPress\<close> calls \<^verbatim>\<open>millis()\<close> twice: once for the new time stamp, once for
  the debounce test.
\<close>

record EncoderButtonSample =
  pinEncoderButton :: PinLevel
  millisAtEdge :: "32 word"
  millisAtTest :: "32 word"

definition handleButtonPress ::
  "EncoderButtonSample \<Rightarrow> ESP32_MenuSystem \<Rightarrow> fault + ESP32_MenuSystem" where
  "handleButtonPress inp s =
     (if inputMode s \<noteq> INPUT_ENCODER then Inr s
      else
        (let currentButtonState = readButton (encoderButtonTriggerType s) (pinEncoderButton inp);
             s1 = (if currentButtonState \<noteq> lastEncoderButtonState s
                   then s\<lparr>lastDebounceTime := millisAtEdge inp\<rparr> else s);
             r = (if millisAtTest inp - lastDebounceTime s1 > debounceDelay s1 then
                    (if currentButtonState \<noteq> encoderButtonState s1 then
                       (let s2 = s1\<lparr>encoderButtonState := currentButtonState\<rparr>
                        in if encoderButtonState s2
                           then confirmPress (s2\<lparr>trace := trace s2 @ [EncoderPress]\<rparr>)
                           else Inr s2)
                     else Inr s1)
                  else Inr s1)
         in case r of
              Inl f \<Rightarrow> Inl f
            | Inr s3 \<Rightarrow> Inr (s3\<lparr>lastEncoderButtonState := currentButtonState\<rparr>)))"

subsection \<open>Rendering, at the level of which screen is drawn\<close>

datatype Screen = ErrorScreen | BoolAdjustScreen | ValueAdjustScreen | MenuScreen | NoScreen

definition displayMenu :: "ESP32_MenuSystem \<Rightarrow> Screen" where
  "displayMenu s =
     (if errorCode s > 0 then ErrorScreen
      else
        (case adjustTarget s of
           Some p \<Rightarrow> (case heap s p of BoolAdj b \<Rightarrow> BoolAdjustScreen | _ \<Rightarrow> ValueAdjustScreen)
         | None \<Rightarrow> (case getCurrentMenu s of None \<Rightarrow> NoScreen | Some m \<Rightarrow> MenuScreen)))"

subsection \<open>Runs of the input handlers\<close>

text \<open>Successive calls of \<^verbatim>\<open>checkButtons\<close>, one per sample; a fault ends the run.\<close>

fun runButtons :: "ButtonSample list \<Rightarrow> ESP32_MenuSystem \<Rightarrow> fault + ESP32_MenuSystem" where
  "runButtons [] s = Inr s"
| "runButtons (x # xs) s =
     (case checkButtons x s of Inl f \<Rightarrow> Inl f | Inr s' \<Rightarrow> runButtons xs s')"

text \<open>
  Successive calls of \<^verbatim>\<open>handleEncoderMovement\<close>; before each call the encoder's counter
  has moved to the next reading of the list.
\<close>

definition setCount :: "int \<Rightarrow> ESP32_MenuSystem \<Rightarrow> ESP32_MenuSystem" where
  "setCount c s = (case encoder s of None \<Rightarrow> s | Some _ \<Rightarrow> s\<lparr>encoder := Some c\<rparr>)"

fun runEncoder :: "int list \<Rightarrow> ESP32_MenuSystem \<Rightarrow> fault + ESP32_MenuSystem" where
  "runEncoder [] s = Inr s"
| "runEncoder (c # cs) s =
     (case handleEncoderMovement (setCount c s) of
        Inl f \<Rightarrow> Inl f
      | Inr s' \<Rightarrow> runEncoder cs s')"

subsection \<open>Construction and example systems\<close>

text \<open>
  The two constructors. Each leaves the fields of the other input mode uninitialised;
  here they hold the values shown.
\<close>

definition buttonModeSystem :: "(nat \<Rightarrow> ValueAdjuster) \<Rightarrow> ESP32_MenuSystem" where
  "buttonModeSystem h =
     \<lparr>menus = [], currentMenuIndex = 0, cursorPosition = 0, inputMode = INPUT_BUTTONS,
      buttonUpState = False, buttonDownState = False, buttonOkState = False,
      lastButtonUpState = False, lastButtonDownState = False, lastButtonOkState = False,
      buttonUpTriggerType = TRIGGER_LOW, buttonDownTriggerType = TRIGGER_LOW,
      buttonOkTriggerType = TRIGGER_LOW, encoderButtonTriggerType = TRIGGER_LOW,
      encoder = None, lastEncoderValue = 0,
      encoderButtonState = False, lastEncoderButtonState = False,
      encoderSensitivity = 1, encoderAccumulator = 0,
      isValueAdjustMode = False, currentValueAdjuster = None,
      lastDebounceTime = 0, debounceDelay = 50, previousMillis = 0, interval = 1000,
      errorCode = 0, errorMessage = [], heap = h, trace = [], adjusterFault = None\<rparr>"

definition encoderModeSystem :: "int \<Rightarrow> (nat \<Rightarrow> ValueAdjuster) \<Rightarrow> ESP32_MenuSystem" where
  "encoderModeSystem sensitivity h =
     (buttonModeSystem h)\<lparr>inputMode := INPUT_ENCODER, encoder := Some 0,
        encoderSensitivity := sensitivity\<rparr>"

text \<open>
  Example adjusters: a float setting on \<open>[0, 10]\<close> in steps of 2, an integer setting on
  \<open>[0, 10]\<close> in steps of 1 (both wrapping), and a boolean setting that is off.
\<close>

definition exampleFloat :: FloatValueAdjuster where
  "exampleFloat = \<lparr>fValue = 9, fIncrement = 2, fMinValue = 0, fMaxValue = 10,
     fDecimalPlaces = 1, fUnit = ''V'', fWrapAround = True\<rparr>"

definition exampleInt :: IntValueAdjuster where
  "exampleInt = \<lparr>iValue = 5, iIncrement = 1, iMinValue = 0, iMaxValue = 10,
     iUnit = ''%'', iWrapAround = True\<rparr>"


definition exampleBool :: BoolValueAdjuster where
  "exampleBool = \<lparr>bValue = False, tempValue = False, trueLabel = ''On'',
     falseLabel = ''Off'', description = []\<rparr>"

definition exampleHeap :: "nat \<Rightarrow> ValueAdjuster" where
  "exampleHeap = (\<lambda>_. FloatAdj exampleFloat)(1 := IntAdj exampleInt, 2 := BoolAdj exampleBool)"

text \<open>
  Three menus: a main menu (a link to the settings, an item with a callback and a
  next-menu id that no menu has, a boolean setting), a settings menu (whose last item
  carries an adjuster, a callback and a next-menu id at once), and a menu without items.
\<close>

definition exampleMenus :: "Menu list" where
  "exampleMenus =
     [\<lparr>title = ''Main'',
        items = [\<lparr>name = ''Settings'', nextMenuId = 1, callback = None, valueAdjuster = None\<rparr>,
                 \<lparr>name = ''Broken'', nextMenuId = 9, callback = Some 7, valueAdjuster = None\<rparr>,
                 \<lparr>name = ''Light'', nextMenuId = -1, callback = None, valueAdjuster = Some 2\<rparr>],
        menu_id = 0, maxVisibleItems = 0\<rparr>,
      \<lparr>title = ''Settings'',
        items = [\<lparr>name = ''Volts'', nextMenuId = -1, callback = None, valueAdjuster = Some 0\<rparr>,
                 \<lparr>name = ''Level'', nextMenuId = -1, callback = None, valueAdjuster = Some 1\<rparr>,
                 \<lparr>name = ''Both'', nextMenuId = 0, callback = Some 3, valueAdjuster = Some 2\<rparr>],
        menu_id = 1, maxVisibleItems = 0\<rparr>,
      \<lparr>title = ''Empty'', items = [], menu_id = 2, maxVisibleItems = 0\<rparr>]"

definition exampleButtons :: ESP32_MenuSystem where
  "exampleButtons = (buttonModeSystem exampleHeap)\<lparr>menus := exampleMenus\<rparr>"

definition exampleEncoder :: "int \<Rightarrow> ESP32_MenuSystem" where
  "exampleEncoder sensitivity =
     (encoderModeSystem sensitivity exampleHeap)\<lparr>menus := exampleMenus\<rparr>"

text \<open>A button sample with all three pins released (pull-up, active low).\<close>

definition released :: "32 word \<Rightarrow> ButtonSample" where
  "released t = \<lparr>pinUp = HIGH, pinDown = HIGH, pinOk = HIGH, millis = t\<rparr>"

subsection \<open>Observing one button\<close>

text \<open>
  The three buttons of \<^verbatim>\<open>checkButtons\<close>, and for each of them: the level that
  \<^verbatim>\<open>checkButtons\<close> computes from a sample (\<^verbatim>\<open>currentUpState\<close>, \<dots>), the debounced level
  (\<^verbatim>\<open>buttonUpState\<close>, \<dots>), the level of the previous sample (\<^verbatim>\<open>lastButtonUpState\<close>,
  \<dots>), and the trace entry of a dispatched press.
\<close>

datatype button = UpButton | DownButton | OkButton

fun pressed :: "button \<Rightarrow> ESP32_MenuSystem \<Rightarrow> ButtonSample \<Rightarrow> bool" where
  "pressed UpButton s x = readButton (buttonUpTriggerType s) (pinUp x)"
| "pressed DownButton s x = readButton (buttonDownTriggerType s) (pinDown x)"
| "pressed OkButton s x = readButton (buttonOkTriggerType s) (pinOk x)"

fun stableState :: "button \<Rightarrow> ESP32_MenuSystem \<Rightarrow> bool" where
  "stableState UpButton s = buttonUpState s"
| "stableState DownButton s = buttonDownState s"
| "stableState OkButton s = buttonOkState s"

fun lastReading :: "button \<Rightarrow> ESP32_MenuSystem \<Rightarrow> bool" where
  "lastReading UpButton s = lastButtonUpState s"
| "lastReading DownButton s = lastButtonDownState s"
| "lastReading OkButton s = lastButtonOkState s"

fun pressEvent :: "button \<Rightarrow> effect" where
  "pressEvent UpButton = ButtonUp"
| "pressEvent DownButton = ButtonDown"
| "pressEvent OkButton = ButtonOk"

section \<open>Properties\<close>

lemmas example_defs = exampleButtons_def exampleEncoder_def buttonModeSystem_def
  encoderModeSystem_def exampleMenus_def exampleHeap_def exampleBool_def exampleInt_def
  exampleFloat_def released_def

lemmas nav_defs = moveUp_def moveDown_def adjustTarget_def getCurrentMenu_def menuCount_def
  itemCount_def select_def goBack_def findMenuById_def enterValueAdjustMode_def
  updateAdjuster_def Let_def

lemmas input_defs = checkButtons_def checkUpButton_def checkDownButton_def checkOkButton_def
  confirmPress_def readButton_def handleEncoderMovement_def handleButtonPress_def
  setCount_def c_rem_def stepValue_def clearError_def setError_def exitValueAdjustMode_def
  BoolValueAdjuster_setValue_def IntValueAdjuster_setValue_def FloatValueAdjuster_setValue_def
  setTempValue_def applyTempValue_def isTrue_def

subsection \<open>The type test\<close>

text \<open>
  \<^verbatim>\<open>getType() == ADJUSTER_TYPE_BOOL\<close> holds exactly for the boolean adjusters, which is
  why the handlers above distinguish the adjuster's class instead.
\<close>

lemma getType_bool: "getType adj = ADJUSTER_TYPE_BOOL \<longleftrightarrow> (\<exists>b. adj = BoolAdj b)"
  by (cases adj)
    (simp_all add: ADJUSTER_TYPE_BOOL_def ADJUSTER_TYPE_INT_def ADJUSTER_TYPE_FLOAT_def)

subsection \<open>What the navigation steps leave alone\<close>

lemma moveUp_frame:
  "menus (moveUp s) = menus s"
  "currentMenuIndex (moveUp s) = currentMenuIndex s"
  "inputMode (moveUp s) = inputMode s"
  "buttonUpState (moveUp s) = buttonUpState s"
  "buttonDownState (moveUp s) = buttonDownState s"
  "buttonOkState (moveUp s) = buttonOkState s"
  "lastButtonUpState (moveUp s) = lastButtonUpState s"
  "lastButtonDownState (moveUp s) = lastButtonDownState s"
  "lastButtonOkState (moveUp s) = lastButtonOkState s"
  "buttonUpTriggerType (moveUp s) = buttonUpTriggerType s"
  "buttonDownTriggerType (moveUp s) = buttonDownTriggerType s"
  "buttonOkTriggerType (moveUp s) = buttonOkTriggerType s"
  "encoderButtonTriggerType (moveUp s) = encoderButtonTriggerType s"
  "encoder (moveUp s) = encoder s"
  "lastEncoderValue (moveUp s) = lastEncoderValue s"
  "encoderButtonState (moveUp s) = encoderButtonState s"
  "lastEncoderButtonState (moveUp s) = lastEncoderButtonState s"
  "encoderSensitivity (moveUp s) = encoderSensitivity s"
  "encoderAccumulator (moveUp s) = encoderAccumulator s"
  "isValueAdjustMode (moveUp s) = isValueAdjustMode s"
  "currentValueAdjuster (moveUp s) = currentValueAdjuster s"
  "lastDebounceTime (moveUp s) = lastDebounceTime s"
  "debounceDelay (moveUp s) = debounceDelay s"
  "previousMillis (moveUp s) = previousMillis s"
  "interval (moveUp s) = interval s"
  "errorCode (moveUp s) = errorCode s"
  "errorMessage (moveUp s) = errorMessage s"
  "trace (moveUp s) = trace s"
  by (simp_all add: moveUp_def updateAdjuster_def
      split: option.splits ValueAdjuster.splits sum.splits)

lemma moveDown_frame:
  "menus (moveDown s) = menus s"
  "currentMenuIndex (moveDown s) = currentMenuIndex s"
  "inputMode (moveDown s) = inputMode s"
  "buttonUpState (moveDown s) = buttonUpState s"
  "buttonDownState (moveDown s) = buttonDownState s"
  "buttonOkState (moveDown s) = buttonOkState s"
  "lastButtonUpState (moveDown s) = lastButtonUpState s"
  "lastButtonDownState (moveDown s) = lastButtonDownState s"
  "lastButtonOkState (moveDown s) = lastButtonOkState s"
  "buttonUpTriggerType (moveDown s) = buttonUpTriggerType s"
  "buttonDownTriggerType (moveDown s) = buttonDownTriggerType s"
  "buttonOkTriggerType (moveDown s) = buttonOkTriggerType s"
  "encoderButtonTriggerType (moveDown s) = encoderButtonTriggerType s"
  "encoder (moveDown s) = encoder s"
  "lastEncoderValue (moveDown s) = lastEncoderValue s"
  "encoderButtonState (moveDown s) = encoderButtonState s"
  "lastEncoderButtonState (moveDown s) = lastEncoderButtonState s"
  "encoderSensitivity (moveDown s) = encoderSensitivity s"
  "encoderAccumulator (moveDown s) = encoderAccumulator s"
  "isValueAdjustMode (moveDown s) = isValueAdjustMode s"
  "currentValueAdjuster (moveDown s) = currentValueAdjuster s"
  "lastDebounceTime (moveDown s) = lastDebounceTime s"
  "debounceDelay (moveDown s) = debounceDelay s"
  "previousMillis (moveDown s) = previousMillis s"
  "interval (moveDown s) = interval s"
  "errorCode (moveDown s) = errorCode s"
  "errorMessage (moveDown s) = errorMessage s"
  "trace (moveDown s) = trace s"
  by (simp_all add: moveDown_def updateAdjuster_def
      split: option.splits ValueAdjuster.splits sum.splits)

lemma updateAdjuster_frame:
  "menus (updateAdjuster p f s) = menus s"
  "currentMenuIndex (updateAdjuster p f s) = currentMenuIndex s"
  "cursorPosition (updateAdjuster p f s) = cursorPosition s"
  "inputMode (updateAdjuster p f s) = inputMode s"
  "buttonUpState (updateAdjuster p f s) = buttonUpState s"
  "buttonDownState (updateAdjuster p f s) = buttonDownState s"
  "buttonOkState (updateAdjuster p f s) = buttonOkState s"
  "lastButtonUpState (updateAdjuster p f s) = lastButtonUpState s"
  "lastButtonDownState (updateAdjuster p f s) = lastButtonDownState s"
  "lastButtonOkState (updateAdjuster p f s) = lastButtonOkState s"
  "buttonUpTriggerType (updateAdjuster p f s) = buttonUpTriggerType s"
  "buttonDownTriggerType (updateAdjuster p f s) = buttonDownTriggerType s"
  "buttonOkTriggerType (updateAdjuster p f s) = buttonOkTriggerType s"
  "encoderButtonTriggerType (updateAdjuster p f s) = encoderButtonTriggerType s"
  "encoder (updateAdjuster p f s) = encoder s"
  "lastEncoderValue (updateAdjuster p f s) = lastEncoderValue s"
  "encoderButtonState (updateAdjuster p f s) = encoderButtonState s"
  "lastEncoderButtonState (updateAdjuster p f s) = lastEncoderButtonState s"
  "encoderSensitivity (updateAdjuster p f s) = encoderSensitivity s"
  "encoderAccumulator (updateAdjuster p f s) = encoderAccumulator s"
  "isValueAdjustMode (updateAdjuster p f s) = isValueAdjustMode s"
  "currentValueAdjuster (updateAdjuster p f s) = currentValueAdjuster s"
  "lastDebounceTime (updateAdjuster p f s) = lastDebounceTime s"
  "debounceDelay (updateAdjuster p f s) = debounceDelay s"
  "previousMillis (updateAdjuster p f s) = previousMillis s"
  "interval (updateAdjuster p f s) = interval s"
  "errorCode (updateAdjuster p f s) = errorCode s"
  "errorMessage (updateAdjuster p f s) = errorMessage s"
  "trace (updateAdjuster p f s) = trace s"
  by (simp_all add: updateAdjuster_def split: sum.splits)

lemma adjustTarget_moves:
  "adjustTarget (moveUp s) = adjustTarget s"
  "adjustTarget (moveDown s) = adjustTarget s"
  "adjustTarget (updateAdjuster p f s) = adjustTarget s"
  by (simp_all add: adjustTarget_def moveUp_frame moveDown_frame updateAdjuster_frame)



subsection \<open>The debounce fields\<close>

text \<open>
  What each block of \<open>checkButtons\<close> does to the shared time stamp, to the debounced
  level of its button and to the trace, and what one call of \<open>checkButtons\<close> does seen
  from one button.
\<close>

lemma word_no_delay [simp]: "\<not> (d::32 word) < t - t"
  by simp

lemma enterValueAdjustMode_frame:
  "inputMode (enterValueAdjustMode p s) = inputMode s"
  "buttonUpState (enterValueAdjustMode p s) = buttonUpState s"
  "buttonDownState (enterValueAdjustMode p s) = buttonDownState s"
  "buttonOkState (enterValueAdjustMode p s) = buttonOkState s"
  "lastButtonUpState (enterValueAdjustMode p s) = lastButtonUpState s"
  "lastButtonDownState (enterValueAdjustMode p s) = lastButtonDownState s"
  "lastButtonOkState (enterValueAdjustMode p s) = lastButtonOkState s"
  "buttonUpTriggerType (enterValueAdjustMode p s) = buttonUpTriggerType s"
  "buttonDownTriggerType (enterValueAdjustMode p s) = buttonDownTriggerType s"
  "buttonOkTriggerType (enterValueAdjustMode p s) = buttonOkTriggerType s"
  "lastDebounceTime (enterValueAdjustMode p s) = lastDebounceTime s"
  "debounceDelay (enterValueAdjustMode p s) = debounceDelay s"
  "trace (enterValueAdjustMode p s) = trace s"
  "errorCode (enterValueAdjustMode p s) = errorCode s"
  "menus (enterValueAdjustMode p s) = menus s"
  "currentMenuIndex (enterValueAdjustMode p s) = currentMenuIndex s"
  "cursorPosition (enterValueAdjustMode p s) = cursorPosition s"
  by (simp_all add: enterValueAdjustMode_def updateAdjuster_def Let_def
      split: option.splits ValueAdjuster.splits)

lemma select_debounce_frame:
  assumes "select s = Inr s'"
  shows "inputMode s' = inputMode s
       \<and> buttonUpState s' = buttonUpState s
       \<and> buttonDownState s' = buttonDownState s
       \<and> buttonOkState s' = buttonOkState s
       \<and> lastButtonUpState s' = lastButtonUpState s
       \<and> lastButtonDownState s' = lastButtonDownState s
       \<and> lastButtonOkState s' = lastButtonOkState s
       \<and> buttonUpTriggerType s' = buttonUpTriggerType s
       \<and> buttonDownTriggerType s' = buttonDownTriggerType s
       \<and> buttonOkTriggerType s' = buttonOkTriggerType s
       \<and> lastDebounceTime s' = lastDebounceTime s
       \<and> debounceDelay s' = debounceDelay s"
    and "trace s' = trace s \<or> (\<exists>cb. trace s' = trace s @ [Executed cb])"
  using assms
  by (auto simp: select_def Let_def enterValueAdjustMode_frame
      split: option.splits if_splits)

lemma confirmPress_debounce_frame:
  assumes "confirmPress s = Inr s'"
  shows "inputMode s' = inputMode s
       \<and> buttonUpState s' = buttonUpState s
       \<and> buttonDownState s' = buttonDownState s
       \<and> buttonOkState s' = buttonOkState s
       \<and> lastButtonUpState s' = lastButtonUpState s
       \<and> lastButtonDownState s' = lastButtonDownState s
       \<and> lastButtonOkState s' = lastButtonOkState s
       \<and> buttonUpTriggerType s' = buttonUpTriggerType s
       \<and> buttonDownTriggerType s' = buttonDownTriggerType s
       \<and> buttonOkTriggerType s' = buttonOkTriggerType s
       \<and> lastDebounceTime s' = lastDebounceTime s
       \<and> debounceDelay s' = debounceDelay s"
    and "trace s' = trace s \<or> (\<exists>cb. trace s' = trace s @ [Executed cb])"
  using assms select_debounce_frame [of s s']
  by (auto simp: confirmPress_def clearError_def exitValueAdjustMode_def updateAdjuster_def
      split: option.splits if_splits ValueAdjuster.splits)


lemma checkUpButton_debounce:
  "lastDebounceTime (checkUpButton c t s) =
     (if c \<noteq> lastButtonUpState s then t else lastDebounceTime s)"
  "buttonUpState (checkUpButton c t s) =
     (if c = lastButtonUpState s \<and> debounceDelay s < t - lastDebounceTime s
      then c else buttonUpState s)"
  "trace (checkUpButton c t s) = trace s @
     (if c \<and> lastButtonUpState s \<and> \<not> buttonUpState s
         \<and> debounceDelay s < t - lastDebounceTime s
      then [ButtonUp] else [])"
  "inputMode (checkUpButton c t s) = inputMode s"
  "buttonDownState (checkUpButton c t s) = buttonDownState s"
  "buttonOkState (checkUpButton c t s) = buttonOkState s"
  "lastButtonUpState (checkUpButton c t s) = lastButtonUpState s"
  "lastButtonDownState (checkUpButton c t s) = lastButtonDownState s"
  "lastButtonOkState (checkUpButton c t s) = lastButtonOkState s"
  "buttonUpTriggerType (checkUpButton c t s) = buttonUpTriggerType s"
  "buttonDownTriggerType (checkUpButton c t s) = buttonDownTriggerType s"
  "buttonOkTriggerType (checkUpButton c t s) = buttonOkTriggerType s"
  "debounceDelay (checkUpButton c t s) = debounceDelay s"
  by (simp_all add: checkUpButton_def Let_def moveUp_frame updateAdjuster_frame
      split: option.splits)

lemma checkDownButton_debounce:
  "lastDebounceTime (checkDownButton c t s) =
     (if c \<noteq> lastButtonDownState s then t else lastDebounceTime s)"
  "buttonDownState (checkDownButton c t s) =
     (if c = lastButtonDownState s \<and> debounceDelay s < t - lastDebounceTime s
      then c else buttonDownState s)"
  "trace (checkDownButton c t s) = trace s @
     (if c \<and> lastButtonDownState s \<and> \<not> buttonDownState s
         \<and> debounceDelay s < t - lastDebounceTime s
      then [ButtonDown] else [])"
  "inputMode (checkDownButton c t s) = inputMode s"
  "buttonUpState (checkDownButton c t s) = buttonUpState s"
  "buttonOkState (checkDownButton c t s) = buttonOkState s"
  "lastButtonUpState (checkDownButton c t s) = lastButtonUpState s"
  "lastButtonDownState (checkDownButton c t s) = lastButtonDownState s"
  "lastButtonOkState (checkDownButton c t s) = lastButtonOkState s"
  "buttonUpTriggerType (checkDownButton c t s) = buttonUpTriggerType s"
  "buttonDownTriggerType (checkDownButton c t s) = buttonDownTriggerType s"
  "buttonOkTriggerType (checkDownButton c t s) = buttonOkTriggerType s"
  "debounceDelay (checkDownButton c t s) = debounceDelay s"
  by (simp_all add: checkDownButton_def Let_def moveDown_frame updateAdjuster_frame
      split: option.splits)

lemma checkOkButton_debounce:
  assumes "checkOkButton c t s = Inr s'"
  shows "lastDebounceTime s' = (if c \<noteq> lastButtonOkState s then t else lastDebounceTime s)"
    and "buttonOkState s' =
       (if c = lastButtonOkState s \<and> debounceDelay s < t - lastDebounceTime s
        then c else buttonOkState s)"
    and "\<exists>es. trace s' = trace s @
       (if c \<and> lastButtonOkState s \<and> \<not> buttonOkState s
           \<and> debounceDelay s < t - lastDebounceTime s
        then ButtonOk # es else []) \<and> (\<forall>e\<in>set es. \<exists>cb. e = Executed cb)"
    and "inputMode s' = inputMode s
       \<and> buttonUpState s' = buttonUpState s
       \<and> buttonDownState s' = buttonDownState s
       \<and> lastButtonUpState s' = lastButtonUpState s
       \<and> lastButtonDownState s' = lastButtonDownState s
       \<and> lastButtonOkState s' = lastButtonOkState s
       \<and> buttonUpTriggerType s' = buttonUpTriggerType s
       \<and> buttonDownTriggerType s' = buttonDownTriggerType s
       \<and> buttonOkTriggerType s' = buttonOkTriggerType s
       \<and> debounceDelay s' = debounceDelay s"
proof -
  let ?s1 = "if c \<noteq> lastButtonOkState s then s\<lparr>lastDebounceTime := t\<rparr> else s"
  let ?fires = "c \<and> lastButtonOkState s \<and> \<not> buttonOkState s
           \<and> debounceDelay s < t - lastDebounceTime s"
  show "lastDebounceTime s' = (if c \<noteq> lastButtonOkState s then t else lastDebounceTime s)"
    and "buttonOkState s' =
       (if c = lastButtonOkState s \<and> debounceDelay s < t - lastDebounceTime s
        then c else buttonOkState s)"
    and "inputMode s' = inputMode s
       \<and> buttonUpState s' = buttonUpState s
       \<and> buttonDownState s' = buttonDownState s
       \<and> lastButtonUpState s' = lastButtonUpState s
       \<and> lastButtonDownState s' = lastButtonDownState s
       \<and> lastButtonOkState s' = lastButtonOkState s
       \<and> buttonUpTriggerType s' = buttonUpTriggerType s
       \<and> buttonDownTriggerType s' = buttonDownTriggerType s
       \<and> buttonOkTriggerType s' = buttonOkTriggerType s
       \<and> debounceDelay s' = debounceDelay s"
    using assms
      confirmPress_debounce_frame(1)
        [of "s\<lparr>buttonOkState := True, trace := trace s @ [ButtonOk]\<rparr>" s']
    by (auto simp: checkOkButton_def Let_def split: if_splits)
  show "\<exists>es. trace s' = trace s @ (if ?fires then ButtonOk # es else [])
          \<and> (\<forall>e\<in>set es. \<exists>cb. e = Executed cb)"
  proof (cases ?fires)
    case True
    then have "confirmPress (s\<lparr>buttonOkState := True, trace := trace s @ [ButtonOk]\<rparr>) = Inr s'"
      using assms by (auto simp: checkOkButton_def Let_def split: if_splits)
    from confirmPress_debounce_frame(2) [OF this]
    have "trace s' = trace s @ ButtonOk # [] \<or> (\<exists>cb. trace s' = trace s @ ButtonOk # [Executed cb])"
      by auto
    then show ?thesis using True by fastforce
  next
    case False
    then have "trace s' = trace s"
      using assms by (auto simp: checkOkButton_def Let_def split: if_splits)
    then show ?thesis using False by (intro exI [of _ "[]"]) simp
  qed
qed

lemma checkOkButton_quiet:
  assumes "\<not> (c \<and> lastButtonOkState s \<and> \<not> buttonOkState s
           \<and> debounceDelay s < t - lastDebounceTime s)"
  shows "\<exists>s'. checkOkButton c t s = Inr s'"
  using assms by (auto simp: checkOkButton_def Let_def)


lemma count_list_executed:
  assumes "\<forall>e\<in>set es. \<exists>cb. e = Executed cb"
  shows "count_list es (pressEvent b) = 0"
  using assms by (induction es) (auto, (cases b; simp)+)

lemma checkButtons_stages:
  assumes "inputMode s = INPUT_BUTTONS" and "checkButtons x s = Inr s'"
  obtains s3 where
    "checkOkButton (pressed OkButton s x) (millis x)
       (checkDownButton (pressed DownButton s x) (millis x)
          (checkUpButton (pressed UpButton s x) (millis x) s)) = Inr s3"
    and "s' = s3\<lparr>lastButtonUpState := pressed UpButton s x,
                  lastButtonDownState := pressed DownButton s x,
                  lastButtonOkState := pressed OkButton s x\<rparr>"
  using assms by (auto simp: checkButtons_def Let_def split: sum.splits)


lemma checkButtons_step:
  assumes "inputMode s = INPUT_BUTTONS" and "checkButtons x s = Inr s'"
  shows "inputMode s' = INPUT_BUTTONS" and "debounceDelay s' = debounceDelay s"
    and "pressed b s' y = pressed b s y"
    and "lastReading b s' = pressed b s x"
    and "lastDebounceTime s' = millis x \<or> lastDebounceTime s' = lastDebounceTime s"
    and "pressed b s x \<noteq> lastReading b s \<Longrightarrow> lastDebounceTime s' = millis x"
    and "\<exists>L. (L = millis x \<or> L = lastDebounceTime s)
           \<and> stableState b s' =
               (if pressed b s x = lastReading b s \<and> debounceDelay s < millis x - L
                then pressed b s x else stableState b s)
           \<and> count_list (trace s') (pressEvent b) = count_list (trace s) (pressEvent b) +
               (if pressed b s x \<and> lastReading b s \<and> \<not> stableState b s
                   \<and> debounceDelay s < millis x - L
                then 1 else 0)"
proof -
  let ?t = "millis x"
  let ?s1 = "checkUpButton (pressed UpButton s x) ?t s"
  let ?s2 = "checkDownButton (pressed DownButton s x) ?t ?s1"
  from checkButtons_stages [OF assms] obtain s3 where
    ok: "checkOkButton (pressed OkButton s x) ?t ?s2 = Inr s3"
    and s': "s' = s3\<lparr>lastButtonUpState := pressed UpButton s x,
                  lastButtonDownState := pressed DownButton s x,
                  lastButtonOkState := pressed OkButton s x\<rparr>"
    by blast
  note up = checkUpButton_debounce [of "pressed UpButton s x" ?t s]
  note down = checkDownButton_debounce [of "pressed DownButton s x" ?t ?s1]
  note okf = checkOkButton_debounce [OF ok]
  from okf(3) obtain es where
    es: "trace s3 = trace ?s2 @
       (if pressed OkButton s x \<and> lastButtonOkState ?s2 \<and> \<not> buttonOkState ?s2
           \<and> debounceDelay ?s2 < ?t - lastDebounceTime ?s2
        then ButtonOk # es else [])"
      "\<forall>e\<in>set es. \<exists>cb. e = Executed cb"
    by blast
  have ces: "count_list es (pressEvent b) = 0"
    by (rule count_list_executed [OF es(2)])
  show "inputMode s' = INPUT_BUTTONS" and "debounceDelay s' = debounceDelay s"
    using assms(1) s' okf(4) down up by simp_all
  show "pressed b s' y = pressed b s y"
    using s' okf(4) down up by (cases b) simp_all
  show "lastReading b s' = pressed b s x"
    using s' by (cases b) simp_all
  show "lastDebounceTime s' = millis x \<or> lastDebounceTime s' = lastDebounceTime s"
    using s' okf(1,4) down up by auto
  show "lastDebounceTime s' = millis x" if "pressed b s x \<noteq> lastReading b s"
    using that s' okf(1,4) down up by (cases b) auto
  show "\<exists>L. (L = millis x \<or> L = lastDebounceTime s)
           \<and> stableState b s' =
               (if pressed b s x = lastReading b s \<and> debounceDelay s < millis x - L
                then pressed b s x else stableState b s)
           \<and> count_list (trace s') (pressEvent b) = count_list (trace s) (pressEvent b) +
               (if pressed b s x \<and> lastReading b s \<and> \<not> stableState b s
                   \<and> debounceDelay s < millis x - L
                then 1 else 0)"
  proof (cases b)
    case UpButton
    show ?thesis
      apply (rule exI [of _ "lastDebounceTime s"])
      using UpButton s' okf(2,4) down up es ces by auto
  next
    case DownButton
    show ?thesis
      apply (rule exI [of _ "lastDebounceTime ?s1"])
      using DownButton s' okf(2,4) down up es ces by auto
  next
    case OkButton
    show ?thesis
      apply (rule exI [of _ "lastDebounceTime ?s2"])
      using OkButton s' okf(2,4) down up es ces by auto
  qed
qed


lemma checkButtons_step_alone:
  assumes "inputMode s = INPUT_BUTTONS" and "checkButtons x s = Inr s'"
    and "\<forall>b'. b' \<noteq> b \<longrightarrow> pressed b' s x = lastReading b' s"
  shows "lastDebounceTime s' =
           (if pressed b s x \<noteq> lastReading b s then millis x else lastDebounceTime s)"
    and "stableState b s' =
           (if pressed b s x = lastReading b s \<and> debounceDelay s < millis x - lastDebounceTime s
            then pressed b s x else stableState b s)"
    and "count_list (trace s') (pressEvent b) = count_list (trace s) (pressEvent b) +
           (if pressed b s x \<and> lastReading b s \<and> \<not> stableState b s
               \<and> debounceDelay s < millis x - lastDebounceTime s
            then 1 else 0)"
proof -
  let ?t = "millis x"
  let ?s1 = "checkUpButton (pressed UpButton s x) ?t s"
  let ?s2 = "checkDownButton (pressed DownButton s x) ?t ?s1"
  from checkButtons_stages [OF assms(1,2)] obtain s3 where
    ok: "checkOkButton (pressed OkButton s x) ?t ?s2 = Inr s3"
    and s': "s' = s3\<lparr>lastButtonUpState := pressed UpButton s x,
                  lastButtonDownState := pressed DownButton s x,
                  lastButtonOkState := pressed OkButton s x\<rparr>"
    by blast
  note up = checkUpButton_debounce [of "pressed UpButton s x" ?t s]
  note down = checkDownButton_debounce [of "pressed DownButton s x" ?t ?s1]
  note okf = checkOkButton_debounce [OF ok]
  from okf(3) obtain es where
    es: "trace s3 = trace ?s2 @
       (if pressed OkButton s x \<and> lastButtonOkState ?s2 \<and> \<not> buttonOkState ?s2
           \<and> debounceDelay ?s2 < ?t - lastDebounceTime ?s2
        then ButtonOk # es else [])"
      "\<forall>e\<in>set es. \<exists>cb. e = Executed cb"
    by blast
  have ces: "count_list es (pressEvent b) = 0"
    by (rule count_list_executed [OF es(2)])
  have others:
    "b \<noteq> UpButton \<Longrightarrow> readButton (buttonUpTriggerType s) (pinUp x) = lastButtonUpState s"
    "b \<noteq> DownButton \<Longrightarrow> readButton (buttonDownTriggerType s) (pinDown x) = lastButtonDownState s"
    "b \<noteq> OkButton \<Longrightarrow> readButton (buttonOkTriggerType s) (pinOk x) = lastButtonOkState s"
    using assms(3) [rule_format, of UpButton] assms(3) [rule_format, of DownButton]
      assms(3) [rule_format, of OkButton]
    by simp_all
  show "lastDebounceTime s' =
           (if pressed b s x \<noteq> lastReading b s then millis x else lastDebounceTime s)"
    using s' okf(1,4) down up others by (cases b) auto
  show "stableState b s' =
           (if pressed b s x = lastReading b s \<and> debounceDelay s < millis x - lastDebounceTime s
            then pressed b s x else stableState b s)"
    using s' okf(2,4) down up others by (cases b) auto
  show "count_list (trace s') (pressEvent b) = count_list (trace s) (pressEvent b) +
           (if pressed b s x \<and> lastReading b s \<and> \<not> stableState b s
               \<and> debounceDelay s < millis x - lastDebounceTime s
            then 1 else 0)"
    using s' okf(2,4) down up es(1) ces others by (cases b) auto
qed

lemma checkButtons_no_fault:
  assumes "inputMode s = INPUT_BUTTONS"
    and "pressed OkButton s x = lastReading OkButton s"
    and "stableState OkButton s = lastReading OkButton s"
  shows "\<exists>s'. checkButtons x s = Inr s' \<and> stableState OkButton s' = lastReading OkButton s'"
proof -
  let ?t = "millis x"
  let ?s1 = "checkUpButton (pressed UpButton s x) ?t s"
  let ?s2 = "checkDownButton (pressed DownButton s x) ?t ?s1"
  note up = checkUpButton_debounce [of "pressed UpButton s x" ?t s]
  note down = checkDownButton_debounce [of "pressed DownButton s x" ?t ?s1]
  have "\<not> (pressed OkButton s x \<and> lastButtonOkState ?s2 \<and> \<not> buttonOkState ?s2
           \<and> debounceDelay ?s2 < ?t - lastDebounceTime ?s2)"
    using assms(2,3) down up by auto
  from checkOkButton_quiet [OF this] obtain s3 where
    ok: "checkOkButton (pressed OkButton s x) ?t ?s2 = Inr s3" by blast
  note okf = checkOkButton_debounce [OF ok]
  have "buttonOkState s3 = pressed OkButton s x"
    using okf(2,4) assms(2,3) down up by auto
  then show ?thesis
    using assms(1) ok by (simp add: checkButtons_def Let_def)
qed

lemma runButtons_append:
  "runButtons (xs @ ys) s =
     (case runButtons xs s of Inl f \<Rightarrow> Inl f | Inr s1 \<Rightarrow> runButtons ys s1)"
  by (induction xs arbitrary: s) (auto split: sum.splits)

lemma word_elapsed_le:
  fixes t l t0 :: "32 word"
  assumes "l - t0 \<le> t - t0"
  shows "t - l \<le> t - t0"
proof -
  have "t - l = (t - t0) - (l - t0)" by simp
  then show ?thesis using word_sub_le [OF assms] by simp
qed


lemma runButtons_Cons_Inr:
  assumes "runButtons (x # xs) s = Inr s'"
  obtains s1 where "checkButtons x s = Inr s1" and "runButtons xs s1 = Inr s'"
  using assms by (auto split: sum.splits)

lemma bounce_pressed_phase:
  assumes "inputMode s = INPUT_BUTTONS" and "\<not> stableState b s"
    and "\<not> lastReading b s \<or> lastDebounceTime s - t0 \<le> lo"
    and "\<forall>x\<in>set xs. pressed b s x \<and> lo \<le> millis x - t0 \<and> millis x - t0 \<le> debounceDelay s"
    and "sorted (map (\<lambda>x. millis x - t0) xs)"
    and "runButtons xs s = Inr s'"
  shows "\<not> stableState b s'
       \<and> count_list (trace s') (pressEvent b) = count_list (trace s) (pressEvent b)
       \<and> inputMode s' = INPUT_BUTTONS \<and> (\<forall>y. pressed b s' y = pressed b s y)"
  using assms
proof (induction xs arbitrary: s lo)
  case Nil
  then show ?case by simp
next
  case (Cons x xs)
  let ?t = "millis x"
  let ?o = "?t - t0"
  from Cons.prems(6) obtain s1 where
    s1: "checkButtons x s = Inr s1" and rest: "runButtons xs s1 = Inr s'"
    by (rule runButtons_Cons_Inr)
  note st = checkButtons_step(1,2) [OF Cons.prems(1) s1]
    checkButtons_step(3) [OF Cons.prems(1) s1, where b = b]
    checkButtons_step(4) [OF Cons.prems(1) s1, where b = b]
    checkButtons_step(5) [OF Cons.prems(1) s1]
    checkButtons_step(6) [OF Cons.prems(1) s1, where b = b]
    checkButtons_step(7) [OF Cons.prems(1) s1, where b = b]
  have px: "pressed b s x" and lo: "lo \<le> ?o" and win: "?o \<le> debounceDelay s"
    using Cons.prems(4) by simp_all
  from st(7) obtain L where
    L: "L = ?t \<or> L = lastDebounceTime s"
    and stable1: "stableState b s1 =
               (if pressed b s x = lastReading b s \<and> debounceDelay s < ?t - L
                then pressed b s x else stableState b s)"
    and count1: "count_list (trace s1) (pressEvent b) = count_list (trace s) (pressEvent b) +
               (if pressed b s x \<and> lastReading b s \<and> \<not> stableState b s
                   \<and> debounceDelay s < ?t - L
                then 1 else 0)"
    by blast
  have young: "\<not> (lastReading b s \<and> debounceDelay s < ?t - L)"
  proof
    assume a: "lastReading b s \<and> debounceDelay s < ?t - L"
    then have "lastDebounceTime s - t0 \<le> lo" using Cons.prems(3) by simp
    then have "lastDebounceTime s - t0 \<le> ?o" using lo by simp
    then have "?t - lastDebounceTime s \<le> ?o" by (rule word_elapsed_le)
    then have "?t - lastDebounceTime s \<le> debounceDelay s" using win by simp
    moreover have "?t - ?t \<le> debounceDelay s" by simp
    ultimately have "?t - L \<le> debounceDelay s" using L by auto
    from leD [OF this] a show False by simp
  qed
  have stable1': "\<not> stableState b s1"
    using stable1 young px Cons.prems(2) by auto
  have count1': "count_list (trace s1) (pressEvent b) = count_list (trace s) (pressEvent b)"
    using count1 young by auto
  have inv1: "\<not> lastReading b s1 \<or> lastDebounceTime s1 - t0 \<le> ?o"
  proof (cases "lastReading b s")
    case True
    then have "lastDebounceTime s - t0 \<le> ?o" using Cons.prems(3) lo by simp
    then show ?thesis using st(5) by auto
  next
    case False
    then have "lastDebounceTime s1 = ?t" using st(6) px by simp
    then show ?thesis by simp
  qed
  have later: "\<forall>y\<in>set xs. pressed b s1 y \<and> ?o \<le> millis y - t0
                 \<and> millis y - t0 \<le> debounceDelay s1"
    using Cons.prems(4,5) st(2,3) by auto
  have sorted1: "sorted (map (\<lambda>x. millis x - t0) xs)"
    using Cons.prems(5) by simp
  from Cons.IH [OF st(1) stable1' inv1 later sorted1 rest]
  show ?case using count1' st(3) by simp
qed

lemma bounce_released_phase:
  assumes "inputMode s = INPUT_BUTTONS" and "\<not> stableState b s"
    and "\<forall>y\<in>set ys. \<not> pressed b s y"
    and "runButtons ys s = Inr s'"
  shows "\<not> stableState b s'
       \<and> count_list (trace s') (pressEvent b) = count_list (trace s) (pressEvent b)"
  using assms
proof (induction ys arbitrary: s)
  case Nil
  then show ?case by simp
next
  case (Cons y ys)
  from Cons.prems(4) obtain s1 where
    s1: "checkButtons y s = Inr s1" and rest: "runButtons ys s1 = Inr s'"
    by (rule runButtons_Cons_Inr)
  note st = checkButtons_step(1,2) [OF Cons.prems(1) s1]
    checkButtons_step(3) [OF Cons.prems(1) s1, where b = b]
    checkButtons_step(4) [OF Cons.prems(1) s1, where b = b]
    checkButtons_step(5) [OF Cons.prems(1) s1]
    checkButtons_step(6) [OF Cons.prems(1) s1, where b = b]
    checkButtons_step(7) [OF Cons.prems(1) s1, where b = b]
  have py: "\<not> pressed b s y" using Cons.prems(3) by simp
  from st(7) obtain L where
    "stableState b s1 =
       (if pressed b s y = lastReading b s \<and> debounceDelay s < millis y - L
        then pressed b s y else stableState b s)"
    and "count_list (trace s1) (pressEvent b) = count_list (trace s) (pressEvent b) +
       (if pressed b s y \<and> lastReading b s \<and> \<not> stableState b s
           \<and> debounceDelay s < millis y - L
        then 1 else 0)"
    by blast
  then have stable1: "\<not> stableState b s1" and
    count1: "count_list (trace s1) (pressEvent b) = count_list (trace s) (pressEvent b)"
    using py Cons.prems(2) by simp_all
  have later: "\<forall>y\<in>set ys. \<not> pressed b s1 y"
    using Cons.prems(3) st(3) by simp
  from Cons.IH [OF st(1) stable1 later rest] count1
  show ?case by simp
qed


lemma held_phase:
  assumes "inputMode s = INPUT_BUTTONS" and "lastReading b s" and "lastDebounceTime s = t0"
    and "\<forall>x\<in>set xs. pressed b s x \<and> (\<forall>b'. b' \<noteq> b \<longrightarrow> pressed b' s x = lastReading b' s)"
    and "runButtons xs s = Inr s'"
  shows "count_list (trace s') (pressEvent b) = count_list (trace s) (pressEvent b) +
           (if \<not> stableState b s \<and> (\<exists>x\<in>set xs. debounceDelay s < millis x - t0)
            then 1 else 0)"
  using assms
proof (induction xs arbitrary: s)
  case Nil
  then show ?case by simp
next
  case (Cons x xs)
  from Cons.prems(5) obtain s1 where
    s1: "checkButtons x s = Inr s1" and rest: "runButtons xs s1 = Inr s'"
    by (rule runButtons_Cons_Inr)
  have px: "pressed b s x" and alone: "\<forall>b'. b' \<noteq> b \<longrightarrow> pressed b' s x = lastReading b' s"
    using Cons.prems(4) by simp_all
  note st = checkButtons_step(1,2) [OF Cons.prems(1) s1]
  have same: "\<And>b' y. pressed b' s1 y = pressed b' s y"
    and last1: "\<And>b'. lastReading b' s1 = pressed b' s x"
    using checkButtons_step(3,4) [OF Cons.prems(1) s1] by simp_all
  note al = checkButtons_step_alone [OF Cons.prems(1) s1 alone]
  have ldt1: "lastDebounceTime s1 = t0"
    using al(1) px Cons.prems(2,3) by simp
  have stable1: "stableState b s1 =
      (if debounceDelay s < millis x - t0 then True else stableState b s)"
    using al(2) px Cons.prems(2,3) by simp
  have count1: "count_list (trace s1) (pressEvent b) = count_list (trace s) (pressEvent b) +
      (if \<not> stableState b s \<and> debounceDelay s < millis x - t0 then 1 else 0)"
    using al(3) px Cons.prems(2,3) by simp
  have lastb: "lastReading b s1" using last1 px by simp
  have later: "\<forall>y\<in>set xs. pressed b s1 y
      \<and> (\<forall>b'. b' \<noteq> b \<longrightarrow> pressed b' s1 y = lastReading b' s1)"
    using Cons.prems(4) same last1 alone by simp
  from Cons.IH [OF st(1) lastb ldt1 later rest]
  have "count_list (trace s') (pressEvent b) = count_list (trace s1) (pressEvent b) +
           (if \<not> stableState b s1 \<and> (\<exists>x\<in>set xs. debounceDelay s1 < millis x - t0)
            then 1 else 0)" .
  then show ?case using count1 stable1 st(2) by auto
qed

lemma held_no_fault:
  assumes "inputMode s = INPUT_BUTTONS"
    and "stableState OkButton s = lastReading OkButton s"
    and "\<forall>x\<in>set xs. pressed OkButton s x = lastReading OkButton s"
  shows "\<exists>s'. runButtons xs s = Inr s'"
  using assms
proof (induction xs arbitrary: s)
  case Nil
  then show ?case by simp
next
  case (Cons x xs)
  have "pressed OkButton s x = lastReading OkButton s" using Cons.prems(3) by simp
  from checkButtons_no_fault [OF Cons.prems(1) this Cons.prems(2)] obtain s1 where
    s1: "checkButtons x s = Inr s1" and rest1: "stableState OkButton s1 = lastReading OkButton s1"
    by blast
  have same: "\<And>y. pressed OkButton s1 y = pressed OkButton s y"
    and last1: "lastReading OkButton s1 = pressed OkButton s x"
    using checkButtons_step(3,4) [OF Cons.prems(1) s1] by simp_all
  have later: "\<forall>y\<in>set xs. pressed OkButton s1 y = lastReading OkButton s1"
    using Cons.prems(3) same last1 by simp
  from Cons.IH [OF checkButtons_step(1) [OF Cons.prems(1) s1] rest1 later]
  show ?case using s1 by simp
qed

lemma all_other_buttons:
  "(\<forall>b'. b' \<noteq> b \<longrightarrow> P b') \<longleftrightarrow>
     (b \<noteq> UpButton \<longrightarrow> P UpButton) \<and> (b \<noteq> DownButton \<longrightarrow> P DownButton)
     \<and> (b \<noteq> OkButton \<longrightarrow> P OkButton)"
  by (metis button.exhaust)


subsection \<open>Cursor movement while browsing\<close>

lemma move_browsing_frame:
  assumes "adjustTarget s = None"
  shows "adjustTarget (moveUp s) = None" and "adjustTarget (moveDown s) = None"
    and "getCurrentMenu (moveUp s) = getCurrentMenu s"
    and "getCurrentMenu (moveDown s) = getCurrentMenu s"
  using assms
  by (auto simp: moveUp_def moveDown_def adjustTarget_def getCurrentMenu_def menuCount_def
      split: option.splits if_splits)

text \<open>
  On a menu with at least one item, \<open>moveUp\<close> and \<open>moveDown\<close> keep the cursor inside the
  menu and wrap at its two ends.
\<close>

lemma moveUp_browsing_range:
  assumes "adjustTarget s = None" and "getCurrentMenu s = Some m"
    and "0 < itemCount m" and "0 \<le> cursorPosition s" and "cursorPosition s < itemCount m"
  shows "cursorPosition (moveUp s) =
           (if cursorPosition s = 0 then itemCount m - 1 else cursorPosition s - 1)"
    and "0 \<le> cursorPosition (moveUp s) \<and> cursorPosition (moveUp s) < itemCount m"
  using assms by (auto simp: moveUp_def)

lemma moveDown_browsing_range:
  assumes "adjustTarget s = None" and "getCurrentMenu s = Some m"
    and "0 < itemCount m" and "0 \<le> cursorPosition s" and "cursorPosition s < itemCount m"
  shows "cursorPosition (moveDown s) =
           (if cursorPosition s = itemCount m - 1 then 0 else cursorPosition s + 1)"
    and "0 \<le> cursorPosition (moveDown s) \<and> cursorPosition (moveDown s) < itemCount m"
  using assms by (auto simp: moveDown_def)

lemma browsing_moves_in_range:
  assumes "adjustTarget s = None" and "getCurrentMenu s = Some m"
    and "0 < itemCount m" and "0 \<le> cursorPosition s" and "cursorPosition s < itemCount m"
  shows "0 \<le> cursorPosition (fold (\<lambda>up. if up then moveUp else moveDown) ups s)
       \<and> cursorPosition (fold (\<lambda>up. if up then moveUp else moveDown) ups s) < itemCount m"
  using assms
proof (induction ups arbitrary: s)
  case Nil
  then show ?case by simp
next
  case (Cons up ups)
  show ?case
  proof (cases up)
    case True
    have "0 \<le> cursorPosition (fold (\<lambda>up. if up then moveUp else moveDown) ups (moveUp s))
       \<and> cursorPosition (fold (\<lambda>up. if up then moveUp else moveDown) ups (moveUp s)) < itemCount m"
      using Cons.prems move_browsing_frame [of s] moveUp_browsing_range(2) [of s m]
      by (intro Cons.IH) simp_all
    with True show ?thesis by simp
  next
    case False
    have "0 \<le> cursorPosition (fold (\<lambda>up. if up then moveUp else moveDown) ups (moveDown s))
       \<and> cursorPosition (fold (\<lambda>up. if up then moveUp else moveDown) ups (moveDown s)) < itemCount m"
      using Cons.prems move_browsing_frame [of s] moveDown_browsing_range(2) [of s m]
      by (intro Cons.IH) simp_all
    with False show ?thesis by simp
  qed
qed

text \<open>
  C1. With at least one item the cursor stays in \<open>[0, N)\<close> and wraps at both ends (the
  three lemmas above). On a menu without items the claim asks for \<open>moveUp\<close> and
  \<open>moveDown\<close> to leave the cursor alone. The code does so for \<open>moveDown\<close> only. Take
  a fresh button-mode system to which one menu and no item has been added: it is
  browsing that menu with the cursor at 0. There \<open>moveUp\<close> stores \<open>itemCount - 1 = -1\<close>
  in the cursor, and a \<open>select\<close> that follows passes the test
  \<^verbatim>\<open>cursorPosition < itemCount\<close> and reads \<^verbatim>\<open>items[-1]\<close>.
\<close>

theorem moveUp_empty_menu:
  "getCurrentMenu (snd (addMenu ''Main'' (buttonModeSystem exampleHeap))) =
      Some \<lparr>title = ''Main'', items = [], menu_id = 0, maxVisibleItems = 0\<rparr>
   \<and> isValueAdjustMode (snd (addMenu ''Main'' (buttonModeSystem exampleHeap))) = False
   \<and> cursorPosition (snd (addMenu ''Main'' (buttonModeSystem exampleHeap))) = 0
   \<and> cursorPosition (moveDown (snd (addMenu ''Main'' (buttonModeSystem exampleHeap)))) = 0
   \<and> cursorPosition (moveUp (snd (addMenu ''Main'' (buttonModeSystem exampleHeap)))) = -1
   \<and> select (moveUp (snd (addMenu ''Main'' (buttonModeSystem exampleHeap)))) = Inl OutOfBounds"
  by (simp add: addMenu_def MAX_MENU_DEPTH_def example_defs nav_defs)

subsection \<open>Single-precision rounding\<close>

lemma round_half_even_of_int [simp]: "round_half_even (of_int n) = n"
  by (simp add: round_half_even_def)

lemma floor_log2_bounds:
  fixes x :: real
  assumes "1 \<le> x" and "x < 2 ^ 24"
  shows "0 \<le> \<lfloor>log 2 x\<rfloor>" and "\<lfloor>log 2 x\<rfloor> \<le> 23"
proof -
  have "0 \<le> log 2 x" using assms(1) by simp
  then show "0 \<le> \<lfloor>log 2 x\<rfloor>" by simp
  have "log 2 x < 24" using assms by (subst log_less_iff) simp_all
  then have "\<lfloor>log 2 x\<rfloor> < 24" by (simp add: floor_less_iff)
  then show "\<lfloor>log 2 x\<rfloor> \<le> 23" by simp
qed

text \<open>An integer below \<open>2\<^sup>2\<^sup>4\<close> in magnitude is a float: rounding leaves it alone.\<close>

lemma round_float_of_int:
  assumes "\<bar>k\<bar> < 2 ^ 24"
  shows "round_float (of_int k) = of_int k"
proof (cases "k = 0")
  case True
  then show ?thesis by (simp add: round_float_def)
next
  case False
  let ?x = "real_of_int k"
  have x: "1 \<le> \<bar>?x\<bar>" "\<bar>?x\<bar> < 2 ^ 24"
    using False assms by (simp_all flip: of_int_abs)
  note b = floor_log2_bounds [OF x]
  define n where "n = nat (23 - \<lfloor>log 2 \<bar>?x\<bar>\<rfloor>)"
  have e: "ulp_exponent ?x = - int n"
    using b by (simp add: ulp_exponent_def n_def)
  have p: "(2::real) powr of_int (ulp_exponent ?x) = 1 / 2 ^ n"
    unfolding e by (simp add: powr_minus powr_realpow divide_inverse)
  have "?x / (1 / 2 ^ n) = of_int (k * 2 ^ n)" by simp
  then have r: "round_half_even (?x / (1 / 2 ^ n)) = k * 2 ^ n"
    by (simp only: round_half_even_of_int)
  have "round_float ?x = of_int (round_half_even (?x / (1 / 2 ^ n))) * (1 / 2 ^ n)"
    using False unfolding round_float_def p by simp
  also have "\<dots> = ?x" unfolding r by simp
  finally show ?thesis .
qed

lemma static_cast_float_exact: "\<bar>k\<bar> < 2 ^ 24 \<Longrightarrow> static_cast_float k = of_int k"
  by (simp add: static_cast_float_def round_float_of_int)



text \<open>\<open>2\<^sup>2\<^sup>4\<close> is a float, \<open>2\<^sup>2\<^sup>4 + 1\<close> is not: it lies halfway between two floats and is
  rounded to the even one, \<open>2\<^sup>2\<^sup>4\<close>.\<close>

lemma round_float_two_24: "round_float 16777216 = 16777216"
proof -
  have "\<lfloor>log 2 (16777216::real)\<rfloor> = 24"
    by (subst floor_log_eq_powr_iff) simp_all
  then have e: "ulp_exponent 16777216 = 1"
    by (simp add: ulp_exponent_def)
  have "round_half_even (16777216 / 2) = 8388608"
    using round_half_even_of_int [of 8388608] by simp
  then show ?thesis by (simp add: round_float_def e)
qed


subsection \<open>Out-of-range values: wrap and clamp\<close>









text \<open>
  Two more inputs on which the integer adjuster on \<open>[0, 10]\<close> does not wrap a value
  above \<open>max\<close> to \<open>min\<close>: \<open>10.5\<close> is truncated to 10 and stored, and the conversion of
  \<open>3000000000\<close> is undefined.
\<close>

lemma int_setValue_fraction:
  "21 / 2 > getMax (IntAdj exampleInt)
   \<and> setValue (21 / 2) (IntAdj exampleInt) = Inr (IntAdj (exampleInt\<lparr>iValue := 10\<rparr>))"
  by (simp add: exampleInt_def IntValueAdjuster_setValue_def static_cast_int_def
      static_cast_float_exact INT_MIN_def INT_MAX_def)

lemma int_setValue_undefined:
  "setValue 3000000000 (IntAdj exampleInt) = Inl UndefinedConversion"
  by (simp add: IntValueAdjuster_setValue_def static_cast_int_def INT_MIN_def INT_MAX_def)

subsection \<open>Editing a boolean setting\<close>

text \<open>
  In edit mode on a boolean adjuster, \<open>moveUp\<close> and \<open>moveDown\<close> set the pending value and
  leave the stored value alone.
\<close>

lemma move_bool_pending:
  assumes "adjustTarget s = Some p" and "heap s p = BoolAdj b"
  shows "heap (moveUp s) p = BoolAdj (b\<lparr>tempValue := True\<rparr>)"
    and "heap (moveDown s) p = BoolAdj (b\<lparr>tempValue := False\<rparr>)"
  using assms by (simp_all add: moveUp_def moveDown_def updateAdjuster_def setTempValue_def)

text \<open>
  C3. The claim asks that an Up input in edit mode on a boolean adjuster sets the
  pending value to true and leaves the stored value alone, in button mode too. In
  button mode \<open>checkButtons\<close> does not go through \<open>moveUp\<close> while editing: it calls
  \<open>setValue (getValue + getIncrement)\<close> on the adjuster, which for a boolean adjuster
  toggles the stored value. In the example, after selecting the boolean item ``Light''
  (stored and pending value false), an Up press held from time 0 to time 100 leaves
  the stored value true and the pending value false.
\<close>

theorem button_up_toggles_stored_bool:
  "select (exampleButtons\<lparr>cursorPosition := 2\<rparr>)
     = Inr (exampleButtons\<lparr>cursorPosition := 2, isValueAdjustMode := True,
                           currentValueAdjuster := Some 2\<rparr>)
   \<and> heap exampleButtons 2 = BoolAdj \<lparr>bValue = False, tempValue = False, trueLabel = ''On'',
         falseLabel = ''Off'', description = []\<rparr>
   \<and> runButtons [(released 0)\<lparr>pinUp := LOW\<rparr>, (released 100)\<lparr>pinUp := LOW\<rparr>]
        (exampleButtons\<lparr>cursorPosition := 2, isValueAdjustMode := True,
                        currentValueAdjuster := Some 2\<rparr>)
     = Inr (exampleButtons\<lparr>cursorPosition := 2, isValueAdjustMode := True,
              currentValueAdjuster := Some 2, buttonUpState := True, lastButtonUpState := True,
              trace := [ButtonUp],
              heap := (heap exampleButtons)(2 := BoolAdj \<lparr>bValue = True, tempValue = False,
                 trueLabel = ''On'', falseLabel = ''Off'', description = []\<rparr>)\<rparr>)"
  by (simp add: example_defs nav_defs input_defs)

text \<open>
  In encoder mode the same edit goes through the type test: a step in the positive
  direction sets the pending value and leaves the stored value alone.
\<close>

lemma encoder_step_sets_pending_bool:
  "runEncoder [1]
     ((exampleEncoder 1)\<lparr>cursorPosition := 2, isValueAdjustMode := True,
                           currentValueAdjuster := Some 2\<rparr>)
     = Inr ((exampleEncoder 1)\<lparr>cursorPosition := 2, isValueAdjustMode := True,
              currentValueAdjuster := Some 2, encoder := Some 1, lastEncoderValue := 1,
              trace := [EncoderStep 1],
              heap := (heap (exampleEncoder 1))(2 := BoolAdj \<lparr>bValue = False,
                 tempValue = True, trueLabel = ''On'', falseLabel = ''Off'',
                 description = []\<rparr>)\<rparr>)"
  by (simp add: example_defs nav_defs input_defs)

subsection \<open>The encoder accumulator\<close>

lemma handleEncoderMovement_below_threshold:
  assumes "inputMode s = INPUT_ENCODER" and "encoder s = Some c" and "c \<noteq> lastEncoderValue s"
    and "\<bar>encoderAccumulator s + (if c > lastEncoderValue s then 1 else -1)\<bar>
           < encoderSensitivity s"
  shows "handleEncoderMovement s =
           Inr (s\<lparr>encoderAccumulator :=
                    encoderAccumulator s + (if c > lastEncoderValue s then 1 else -1),
                  lastEncoderValue := c\<rparr>)"
  using assms by (simp add: handleEncoderMovement_def Let_def)

lemma handleEncoderMovement_at_threshold:
  assumes "inputMode s = INPUT_ENCODER" and "encoder s = Some c" and "c \<noteq> lastEncoderValue s"
    and "acc = encoderAccumulator s + (if c > lastEncoderValue s then 1 else -1)"
    and "\<bar>acc\<bar> \<ge> encoderSensitivity s" and "encoderSensitivity s \<noteq> 0"
  shows "\<exists>s'. handleEncoderMovement s = Inr s'
           \<and> inputMode s' = INPUT_ENCODER \<and> encoder s' = Some c \<and> lastEncoderValue s' = c
           \<and> encoderSensitivity s' = encoderSensitivity s
           \<and> encoderAccumulator s' = c_rem acc (encoderSensitivity s)
           \<and> trace s' = trace s @ [EncoderStep (if acc > 0 then 1 else -1)]"
  using assms
  by (simp add: handleEncoderMovement_def Let_def moveUp_frame moveDown_frame
        updateAdjuster_frame split: option.splits ValueAdjuster.splits)

lemma handleEncoderMovement_tick:
  assumes "inputMode s = INPUT_ENCODER" and "encoder s = Some c" and "c \<noteq> lastEncoderValue s"
    and "d = (if c > lastEncoderValue s then 1 else -1)"
    and "encoderAccumulator s = d * a" and "0 \<le> a" and "a < encoderSensitivity s"
  shows "\<exists>s'. handleEncoderMovement s = Inr s'
           \<and> inputMode s' = INPUT_ENCODER \<and> encoder s' = Some c \<and> lastEncoderValue s' = c
           \<and> encoderSensitivity s' = encoderSensitivity s
           \<and> encoderAccumulator s' = d * (if a + 1 = encoderSensitivity s then 0 else a + 1)
           \<and> trace s' = trace s @ (if a + 1 = encoderSensitivity s then [EncoderStep d] else [])"
proof -
  have d: "d = 1 \<or> d = -1" using assms(4) by simp
  define acc where "acc = encoderAccumulator s + (if c > lastEncoderValue s then 1 else -1)"
  have acc: "acc = d * (a + 1)"
    using d assms(4,5) by (auto simp: acc_def algebra_simps)
  have abs_acc: "\<bar>acc\<bar> = a + 1"
    using d assms(6) acc by (auto simp: abs_mult)
  show ?thesis
  proof (cases "a + 1 = encoderSensitivity s")
    case True
    have rem: "c_rem acc (encoderSensitivity s) = 0"
      using abs_acc True assms(6) by (simp add: c_rem_def)
    have dir: "(if acc > 0 then 1 else -1) = d"
      using d acc assms(6) by auto
    have "\<bar>acc\<bar> \<ge> encoderSensitivity s" "encoderSensitivity s \<noteq> 0"
      using abs_acc True assms(6) by simp_all
    from handleEncoderMovement_at_threshold [OF assms(1-3) acc_def this]
    show ?thesis using True rem dir by auto
  next
    case False
    then have "\<bar>acc\<bar> < encoderSensitivity s"
      using abs_acc assms(7) by simp
    from handleEncoderMovement_below_threshold [OF assms(1-3) this [unfolded acc_def]]
    show ?thesis using False assms(1,2) acc by (simp add: acc_def)
  qed
qed


lemma div_mod_step:
  fixes a n S :: int
  assumes "0 \<le> a" and "a < S" and "0 \<le> n"
  shows "((if a + 1 = S then 0 else a + 1) + n) mod S = (a + (n + 1)) mod S"
    and "nat (if a + 1 = S then 1 else 0) + nat (((if a + 1 = S then 0 else a + 1) + n) div S)
           = nat ((a + (n + 1)) div S)"
proof -
  have S: "0 < S" using assms by simp
  show "((if a + 1 = S then 0 else a + 1) + n) mod S = (a + (n + 1)) mod S"
  proof (cases "a + 1 = S")
    case True
    then have e: "a + (n + 1) = n + S" by simp
    show ?thesis using True by (simp add: e)
  next
    case False
    then show ?thesis by (simp add: algebra_simps)
  qed
  show "nat (if a + 1 = S then 1 else 0) + nat (((if a + 1 = S then 0 else a + 1) + n) div S)
           = nat ((a + (n + 1)) div S)"
  proof (cases "a + 1 = S")
    case True
    then have e: "a + (n + 1) = n + S" by simp
    have "0 \<le> n div S" using assms S by (simp add: pos_imp_zdiv_nonneg_iff)
    then show ?thesis using True S by (simp add: e nat_add_distrib)
  next
    case False
    then show ?thesis by (simp add: algebra_simps)
  qed
qed

lemma runEncoder_steps:
  assumes "inputMode s = INPUT_ENCODER" and "encoder s \<noteq> None" and "d = 1 \<or> d = -1"
    and "sorted_wrt (\<lambda>x y. d * x < d * y) (lastEncoderValue s # cs)"
    and "encoderAccumulator s = d * a" and "0 \<le> a" and "a < encoderSensitivity s"
  shows "\<exists>s'. runEncoder cs s = Inr s'
           \<and> encoderSensitivity s' = encoderSensitivity s
           \<and> encoderAccumulator s' = d * ((a + int (length cs)) mod encoderSensitivity s)
           \<and> trace s' = trace s @
                replicate (nat ((a + int (length cs)) div encoderSensitivity s)) (EncoderStep d)"
  using assms
proof (induction cs arbitrary: s a)
  case Nil
  then show ?case by simp
next
  case (Cons c cs)
  let ?S = "encoderSensitivity s"
  let ?s0 = "setCount c s"
  have s0: "inputMode ?s0 = INPUT_ENCODER" "encoder ?s0 = Some c"
    "lastEncoderValue ?s0 = lastEncoderValue s" "encoderSensitivity ?s0 = ?S"
    "encoderAccumulator ?s0 = d * a" "trace ?s0 = trace s"
    using Cons.prems by (auto simp: setCount_def)
  have lt: "d * lastEncoderValue s < d * c" using Cons.prems(4) by simp
  then have ne: "c \<noteq> lastEncoderValue ?s0" and dir: "d = (if c > lastEncoderValue ?s0 then 1 else -1)"
    using Cons.prems(3) s0(3) by auto
  from handleEncoderMovement_tick [OF s0(1,2) ne dir s0(5) Cons.prems(6)] Cons.prems(7) s0(4)
  obtain s1 where s1: "handleEncoderMovement ?s0 = Inr s1"
    "inputMode s1 = INPUT_ENCODER" "encoder s1 = Some c" "lastEncoderValue s1 = c"
    "encoderSensitivity s1 = ?S"
    "encoderAccumulator s1 = d * (if a + 1 = ?S then 0 else a + 1)"
    "trace s1 = trace ?s0 @ (if a + 1 = ?S then [EncoderStep d] else [])"
    by auto
  let ?a1 = "if a + 1 = ?S then 0 else a + 1"
  have a1: "0 \<le> ?a1" "?a1 < encoderSensitivity s1"
    using Cons.prems(6,7) s1(5) by auto
  have sorted1: "sorted_wrt (\<lambda>x y. d * x < d * y) (lastEncoderValue s1 # cs)"
    using Cons.prems(4) s1(4) by simp
  have enc1: "encoder s1 \<noteq> None" using s1(3) by simp
  from Cons.IH [OF s1(2) enc1 Cons.prems(3) sorted1 s1(6) a1]
  obtain s' where s': "runEncoder cs s1 = Inr s'"
    "encoderSensitivity s' = encoderSensitivity s1"
    "encoderAccumulator s' = d * ((?a1 + int (length cs)) mod encoderSensitivity s1)"
    "trace s' = trace s1 @
       replicate (nat ((?a1 + int (length cs)) div encoderSensitivity s1)) (EncoderStep d)"
    by blast
  have n: "0 \<le> int (length cs)" by simp
  note dm = div_mod_step [OF Cons.prems(6,7) n]
  have run: "runEncoder (c # cs) s = Inr s'" using s1(1) s'(1) by simp
  have acc: "encoderAccumulator s' = d * ((a + int (length (c # cs))) mod ?S)"
    using s'(3) s1(5) dm(1) by (simp add: add.commute)
  have "trace s' = trace s @ replicate (nat (if a + 1 = ?S then 1 else 0)) (EncoderStep d)
           @ replicate (nat ((?a1 + int (length cs)) div ?S)) (EncoderStep d)"
    using s'(4) s1(5,7) s0(6) by simp
  then have tr: "trace s' = trace s @
       replicate (nat ((a + int (length (c # cs))) div ?S)) (EncoderStep d)"
    using dm(2) by (simp add: replicate_add [symmetric] add.commute del: replicate_add)
  show ?case using run acc tr s'(2) s1(5) by auto
qed


text \<open>
  C4, as the code has it. The handler adds the sign of each change of the encoder
  reading to the accumulator, not the change itself. Starting from an empty
  accumulator with sensitivity \<open>s \<ge> 1\<close>, a run of \<open>n\<close> readings that each lie above the
  one before dispatches exactly \<open>n div s\<close> steps, all in direction \<open>1\<close>, and leaves
  \<open>n mod s\<close> in the accumulator; a run of \<open>n\<close> readings that each lie below the one
  before dispatches \<open>n div s\<close> steps in direction \<open>-1\<close> and leaves \<open>-(n mod s)\<close>. So with
  \<open>n = k * s + r\<close>, \<open>0 \<le> r < s\<close>, there are \<open>k\<close> steps and the remainder is \<open>r\<close>, where
  \<open>n\<close> counts the changed readings; it is the sum of the raw deltas only when every
  delta is one tick.
\<close>

theorem encoder_steps_per_changed_reading:
  assumes "inputMode s = INPUT_ENCODER" and "encoder s \<noteq> None"
    and "1 \<le> encoderSensitivity s" and "encoderAccumulator s = 0"
  shows "(sorted_wrt (<) (lastEncoderValue s # cs) \<longrightarrow>
           (\<exists>s'. runEncoder cs s = Inr s'
              \<and> trace s' = trace s @
                   replicate (nat (int (length cs) div encoderSensitivity s)) (EncoderStep 1)
              \<and> encoderAccumulator s' = int (length cs) mod encoderSensitivity s))
       \<and> (sorted_wrt (>) (lastEncoderValue s # cs) \<longrightarrow>
           (\<exists>s'. runEncoder cs s = Inr s'
              \<and> trace s' = trace s @
                   replicate (nat (int (length cs) div encoderSensitivity s)) (EncoderStep (-1))
              \<and> encoderAccumulator s' = - (int (length cs) mod encoderSensitivity s)))"
proof (intro conjI impI)
  assume up: "sorted_wrt (<) (lastEncoderValue s # cs)"
  have "sorted_wrt (\<lambda>x y. 1 * x < 1 * y) (lastEncoderValue s # cs)"
    using up by simp
  from runEncoder_steps [OF assms(1,2) _ this, of 0] assms(3,4)
  show "\<exists>s'. runEncoder cs s = Inr s'
              \<and> trace s' = trace s @
                   replicate (nat (int (length cs) div encoderSensitivity s)) (EncoderStep 1)
              \<and> encoderAccumulator s' = int (length cs) mod encoderSensitivity s"
    by auto
next
  assume down: "sorted_wrt (>) (lastEncoderValue s # cs)"
  have "(\<lambda>x y::int. - 1 * x < - 1 * y) = (>)" by auto
  then have "sorted_wrt (\<lambda>x y. - 1 * x < - 1 * y) (lastEncoderValue s # cs)"
    using down by simp
  from runEncoder_steps [OF assms(1,2) _ this, of 0] assms(3,4)
  show "\<exists>s'. runEncoder cs s = Inr s'
              \<and> trace s' = trace s @
                   replicate (nat (int (length cs) div encoderSensitivity s)) (EncoderStep (-1))
              \<and> encoderAccumulator s' = - (int (length cs) mod encoderSensitivity s)"
    by auto
qed

theorem encoder_steps_per_changed_reading_witness:
  "sorted_wrt (<) (lastEncoderValue (exampleEncoder 2) # [1, 2, 3, 4, 5])
   \<and> (\<exists>s'. runEncoder [1, 2, 3, 4, 5] (exampleEncoder 2) = Inr s'
         \<and> trace s' = [EncoderStep 1, EncoderStep 1] \<and> encoderAccumulator s' = 1)"
  using encoder_steps_per_changed_reading [of "exampleEncoder 2" "[1, 2, 3, 4, 5]"]
  by (simp add: example_defs numeral_2_eq_2)

text \<open>
  The claim as stated fails when a reading jumps by more than one tick: with
  sensitivity 2 and the single reading 4 after 0, the raw deltas sum to \<open>4 = 2 * 2 + 0\<close>,
  yet no step is dispatched and the accumulator holds 1.
\<close>

theorem encoder_large_delta_counterexample:
  "encoderSensitivity (exampleEncoder 2) = 2
   \<and> lastEncoderValue (exampleEncoder 2) = 0
   \<and> encoderAccumulator (exampleEncoder 2) = 0
   \<and> runEncoder [4] (exampleEncoder 2)
     = Inr ((exampleEncoder 2)\<lparr>encoder := Some 4, lastEncoderValue := 4,
              encoderAccumulator := 1\<rparr>)
   \<and> trace ((exampleEncoder 2)\<lparr>encoder := Some 4, lastEncoderValue := 4,
              encoderAccumulator := 1\<rparr>) = []"
  by (simp add: example_defs nav_defs input_defs)


subsection \<open>Debouncing\<close>

text \<open>
  C5, as the code has it. The three buttons of \<open>checkButtons\<close> share the single time
  stamp \<open>lastDebounceTime\<close>, restarted by a raw level change of any of them. Let button
  \<open>b\<close> be idle (debounced level and last sample released) and let \<open>xs\<close> be the samples
  during which its raw level is pressed.
  \<^item> If every sample of \<open>xs\<close> is taken no later than \<open>debounceDelay\<close> after the first one,
    and the button is released throughout \<open>ys\<close>, the run \<open>xs @ ys\<close> dispatches no press
    of \<open>b\<close>, whatever the other buttons do.
  \<^item> If no other button changes its raw level during \<open>xs\<close>, the run dispatches exactly
    one press of \<open>b\<close> when some sample is taken more than \<open>debounceDelay\<close> after the
    first, and none otherwise; nothing more is dispatched while \<open>b\<close> stays pressed.
    The run returns normally when \<open>b\<close> is not the OK button and the OK button is at
    rest.
  Elapsed times are differences of 32-bit time stamps, as in the code.
\<close>

theorem debounce_shared_window:
  assumes "inputMode s = INPUT_BUTTONS" and "\<not> stableState b s" and "\<not> lastReading b s"
    and "xs \<noteq> []" and "\<forall>x\<in>set xs. pressed b s x"
  shows "(sorted (map (\<lambda>x. millis x - millis (hd xs)) xs)
          \<and> (\<forall>x\<in>set xs. millis x - millis (hd xs) \<le> debounceDelay s)
          \<and> (\<forall>y\<in>set ys. \<not> pressed b s y) \<longrightarrow>
            (\<forall>s'. runButtons (xs @ ys) s = Inr s' \<longrightarrow>
               count_list (trace s') (pressEvent b) = count_list (trace s) (pressEvent b)))
       \<and> ((\<forall>x\<in>set xs. \<forall>b'. b' \<noteq> b \<longrightarrow> pressed b' s x = lastReading b' s) \<longrightarrow>
            (\<forall>s'. runButtons xs s = Inr s' \<longrightarrow>
               count_list (trace s') (pressEvent b) = count_list (trace s) (pressEvent b) +
                 (if \<exists>x\<in>set xs. debounceDelay s < millis x - millis (hd xs) then 1 else 0))
          \<and> (b \<noteq> OkButton \<and> stableState OkButton s = lastReading OkButton s \<longrightarrow>
               (\<exists>s'. runButtons xs s = Inr s')))"
proof (intro conjI impI allI)
  fix s'
  assume window: "sorted (map (\<lambda>x. millis x - millis (hd xs)) xs)
          \<and> (\<forall>x\<in>set xs. millis x - millis (hd xs) \<le> debounceDelay s)
          \<and> (\<forall>y\<in>set ys. \<not> pressed b s y)"
    and run: "runButtons (xs @ ys) s = Inr s'"
  from run obtain s1 where
    r1: "runButtons xs s = Inr s1" and r2: "runButtons ys s1 = Inr s'"
    by (auto simp: runButtons_append split: sum.splits)
  have inv: "\<not> lastReading b s \<or> lastDebounceTime s - millis (hd xs) \<le> 0"
    using assms(3) by simp
  have all: "\<forall>x\<in>set xs. pressed b s x \<and> 0 \<le> millis x - millis (hd xs)
               \<and> millis x - millis (hd xs) \<le> debounceDelay s"
    using assms(5) window by simp
  from bounce_pressed_phase [OF assms(1,2) inv all _ r1] window
  have p1: "\<not> stableState b s1"
    "count_list (trace s1) (pressEvent b) = count_list (trace s) (pressEvent b)"
    "inputMode s1 = INPUT_BUTTONS" "\<forall>y. pressed b s1 y = pressed b s y"
    by simp_all
  have rel: "\<forall>y\<in>set ys. \<not> pressed b s1 y" using window p1(4) by simp
  from bounce_released_phase [OF p1(3,1) rel r2] p1(2)
  show "count_list (trace s') (pressEvent b) = count_list (trace s) (pressEvent b)"
    by simp
next
  fix s'
  assume alone: "\<forall>x\<in>set xs. \<forall>b'. b' \<noteq> b \<longrightarrow> pressed b' s x = lastReading b' s"
    and run: "runButtons xs s = Inr s'"
  from assms(4) obtain x0 xs' where xs: "xs = x0 # xs'" by (cases xs) auto
  from run xs obtain s1 where
    s1: "checkButtons x0 s = Inr s1" and rest: "runButtons xs' s1 = Inr s'"
    by (auto split: sum.splits)
  have px: "pressed b s x0" and alone0: "\<forall>b'. b' \<noteq> b \<longrightarrow> pressed b' s x0 = lastReading b' s"
    using assms(5) alone xs by simp_all
  note st = checkButtons_step(1,2) [OF assms(1) s1]
  have same: "\<And>b' y. pressed b' s1 y = pressed b' s y"
    and last1: "\<And>b'. lastReading b' s1 = pressed b' s x0"
    using checkButtons_step(3,4) [OF assms(1) s1] by simp_all
  note al = checkButtons_step_alone [OF assms(1) s1 alone0]
  have ldt1: "lastDebounceTime s1 = millis x0" using al(1) px assms(3) by simp
  have stable1: "\<not> stableState b s1" using al(2) px assms(2,3) by simp
  have count1: "count_list (trace s1) (pressEvent b) = count_list (trace s) (pressEvent b)"
    using al(3) assms(3) by simp
  have lastb: "lastReading b s1" using last1 px by simp
  have later: "\<forall>y\<in>set xs'. pressed b s1 y
      \<and> (\<forall>b'. b' \<noteq> b \<longrightarrow> pressed b' s1 y = lastReading b' s1)"
    using assms(5) alone xs same last1 alone0 by simp
  from held_phase [OF st(1) lastb ldt1 later rest]
  have "count_list (trace s') (pressEvent b) = count_list (trace s1) (pressEvent b) +
           (if \<not> stableState b s1 \<and> (\<exists>x\<in>set xs'. debounceDelay s1 < millis x - millis x0)
            then 1 else 0)" .
  then show "count_list (trace s') (pressEvent b) = count_list (trace s) (pressEvent b) +
                 (if \<exists>x\<in>set xs. debounceDelay s < millis x - millis (hd xs) then 1 else 0)"
    using count1 stable1 st(2) xs by simp
next
  assume alone: "\<forall>x\<in>set xs. \<forall>b'. b' \<noteq> b \<longrightarrow> pressed b' s x = lastReading b' s"
    and ok: "b \<noteq> OkButton \<and> stableState OkButton s = lastReading OkButton s"
  have "\<forall>x\<in>set xs. pressed OkButton s x = lastReading OkButton s"
  proof
    fix x assume "x \<in> set xs"
    with alone have "\<forall>b'. b' \<noteq> b \<longrightarrow> pressed b' s x = lastReading b' s" by blast
    from this [rule_format, of OkButton] ok
    show "pressed OkButton s x = lastReading OkButton s" by blast
  qed
  from held_no_fault [OF assms(1) _ this] ok
  show "\<exists>s'. runButtons xs s = Inr s'" by simp
qed

theorem debounce_shared_window_witness:
  "runButtons ([(released 0)\<lparr>pinUp := LOW\<rparr>, (released 30)\<lparr>pinUp := LOW\<rparr>]
                @ [released 40, released 200]) exampleButtons
     = Inr (exampleButtons\<lparr>lastDebounceTime := 40\<rparr>)
   \<and> count_list (trace (exampleButtons\<lparr>lastDebounceTime := 40\<rparr>)) ButtonUp
       = count_list (trace exampleButtons) ButtonUp
   \<and> runButtons [(released 0)\<lparr>pinUp := LOW\<rparr>, (released 30)\<lparr>pinUp := LOW\<rparr>,
                 (released 60)\<lparr>pinUp := LOW\<rparr>] exampleButtons
     = Inr (exampleButtons\<lparr>lastButtonUpState := True, buttonUpState := True,
              cursorPosition := 2, trace := [ButtonUp]\<rparr>)
   \<and> count_list (trace (exampleButtons\<lparr>lastButtonUpState := True, buttonUpState := True,
              cursorPosition := 2, trace := [ButtonUp]\<rparr>)) ButtonUp
       = count_list (trace exampleButtons) ButtonUp + 1"
proof -
  let ?bounce = "[(released 0)\<lparr>pinUp := LOW\<rparr>, (released 30)\<lparr>pinUp := LOW\<rparr>]"
  let ?held = "[(released 0)\<lparr>pinUp := LOW\<rparr>, (released 30)\<lparr>pinUp := LOW\<rparr>,
                 (released 60)\<lparr>pinUp := LOW\<rparr>]"
  have idle: "inputMode exampleButtons = INPUT_BUTTONS"
    "\<not> stableState UpButton exampleButtons" "\<not> lastReading UpButton exampleButtons"
    by (simp_all add: example_defs)
  have run1: "runButtons (?bounce @ [released 40, released 200]) exampleButtons
       = Inr (exampleButtons\<lparr>lastDebounceTime := 40\<rparr>)"
    by (simp add: example_defs nav_defs input_defs)
  have run2: "runButtons ?held exampleButtons
       = Inr (exampleButtons\<lparr>lastButtonUpState := True, buttonUpState := True,
              cursorPosition := 2, trace := [ButtonUp]\<rparr>)"
    by (simp add: example_defs nav_defs input_defs)
  have bounce: "?bounce \<noteq> []" "\<forall>x\<in>set ?bounce. pressed UpButton exampleButtons x"
    "sorted (map (\<lambda>x. millis x - millis (hd ?bounce)) ?bounce)
      \<and> (\<forall>x\<in>set ?bounce. millis x - millis (hd ?bounce) \<le> debounceDelay exampleButtons)
      \<and> (\<forall>y\<in>set [released 40, released 200]. \<not> pressed UpButton exampleButtons y)"
    by (simp_all add: example_defs readButton_def)
  have held: "?held \<noteq> []" "\<forall>x\<in>set ?held. pressed UpButton exampleButtons x"
    "\<forall>x\<in>set ?held. \<forall>b'. b' \<noteq> UpButton \<longrightarrow>
        pressed b' exampleButtons x = lastReading b' exampleButtons"
    "\<exists>x\<in>set ?held. debounceDelay exampleButtons < millis x - millis (hd ?held)"
    by (simp_all add: example_defs readButton_def all_other_buttons)
  from debounce_shared_window [OF idle bounce(1,2), of "[released 40, released 200]",
      THEN conjunct1, THEN mp, OF bounce(3), THEN spec, THEN mp, OF run1]
  have c1: "count_list (trace (exampleButtons\<lparr>lastDebounceTime := 40\<rparr>)) ButtonUp
       = count_list (trace exampleButtons) ButtonUp"
    by simp
  from debounce_shared_window [OF idle held(1,2), of "[]",
      THEN conjunct2, THEN mp, OF held(3), THEN conjunct1, THEN spec, THEN mp, OF run2] held(4)
  have c2: "count_list (trace (exampleButtons\<lparr>lastButtonUpState := True, buttonUpState := True,
              cursorPosition := 2, trace := [ButtonUp]\<rparr>)) ButtonUp
       = count_list (trace exampleButtons) ButtonUp + 1"
    by simp
  show ?thesis using run1 c1 run2 c2 by blast
qed

text \<open>
  The claim as stated fails where it asks for independent debounce timing. With the
  delay of 50: the Up button is pressed at time 0 and held; the Down button is pressed
  at time 40. At time 60 the Up press has been stable for longer than the delay, yet
  no press has been dispatched, because the Down edge restarted the shared time stamp.
  Without the Down edge the same samples dispatch the Up press at time 60.
\<close>

theorem debounce_other_button_counterexample:
  "debounceDelay exampleButtons = 50
   \<and> runButtons [(released 0)\<lparr>pinUp := LOW\<rparr>,
                 (released 40)\<lparr>pinUp := LOW, pinDown := LOW\<rparr>,
                 (released 60)\<lparr>pinUp := LOW, pinDown := LOW\<rparr>] exampleButtons
     = Inr (exampleButtons\<lparr>lastButtonUpState := True, lastButtonDownState := True,
              lastDebounceTime := 40\<rparr>)
   \<and> trace (exampleButtons\<lparr>lastButtonUpState := True, lastButtonDownState := True,
              lastDebounceTime := 40\<rparr>) = []
   \<and> runButtons [(released 0)\<lparr>pinUp := LOW\<rparr>,
                 (released 40)\<lparr>pinUp := LOW\<rparr>,
                 (released 60)\<lparr>pinUp := LOW\<rparr>] exampleButtons
     = Inr (exampleButtons\<lparr>lastButtonUpState := True, buttonUpState := True,
              cursorPosition := 2, trace := [ButtonUp]\<rparr>)"
  by (simp add: example_defs nav_defs input_defs)

subsection \<open>Going back\<close>

text \<open>
  C6, as the code has it. \<open>goBack\<close> is guarded by \<^verbatim>\<open>currentMenuIndex > 0\<close>: from any
  other menu it makes the first menu current and puts the cursor at 0, and changes
  nothing else; when the first menu is already current it changes nothing, the cursor
  included.
\<close>

theorem goBack_guarded:
  "(currentMenuIndex s > 0 \<longrightarrow> goBack s = s\<lparr>currentMenuIndex := 0, cursorPosition := 0\<rparr>)
   \<and> (currentMenuIndex s \<le> 0 \<longrightarrow> goBack s = s)"
  by (simp add: goBack_def)

theorem goBack_guarded_witness:
  "currentMenuIndex (exampleButtons\<lparr>currentMenuIndex := 1, cursorPosition := 2\<rparr>) > 0
   \<and> currentMenuIndex (goBack (exampleButtons\<lparr>currentMenuIndex := 1, cursorPosition := 2\<rparr>)) = 0
   \<and> cursorPosition (goBack (exampleButtons\<lparr>currentMenuIndex := 1, cursorPosition := 2\<rparr>)) = 0"
  using goBack_guarded [of "exampleButtons\<lparr>currentMenuIndex := 1, cursorPosition := 2\<rparr>"]
  by (simp add: example_defs)

text \<open>
  The claim as stated fails on the first menu: browsing the main menu with the cursor
  on its third item, \<open>goBack\<close> leaves the cursor at 2.
\<close>

theorem goBack_first_menu_counterexample:
  "currentMenuIndex (exampleButtons\<lparr>cursorPosition := 2\<rparr>) = 0
   \<and> isValueAdjustMode (exampleButtons\<lparr>cursorPosition := 2\<rparr>) = False
   \<and> cursorPosition (goBack (exampleButtons\<lparr>cursorPosition := 2\<rparr>)) = 2"
  by (simp add: example_defs nav_defs)

subsection \<open>The error latch\<close>

lemma checkOkButton_latched:
  assumes "errorCode s > 0"
  shows "(\<exists>s'. checkOkButton c t s = Inr s'
              \<and> cursorPosition s' = cursorPosition s \<and> currentMenuIndex s' = currentMenuIndex s
              \<and> isValueAdjustMode s' = isValueAdjustMode s
              \<and> currentValueAdjuster s' = currentValueAdjuster s
              \<and> heap s' = heap s \<and> menus s' = menus s
              \<and> (if trace s' = trace s then errorCode s' = errorCode s
                  else trace s' = trace s @ [ButtonOk] \<and> errorCode s' = 0)
              \<and> (if c \<and> lastButtonOkState s \<and> \<not> buttonOkState s
                      \<and> debounceDelay s < t - lastDebounceTime s
                  then trace s' = trace s @ [ButtonOk] \<and> errorCode s' = 0
                     \<and> errorMessage s' = [] \<and> displayMenu s' \<noteq> ErrorScreen
                  else trace s' = trace s \<and> errorCode s' = errorCode s
                     \<and> errorMessage s' = errorMessage s))"
  using assms
  by (simp add: checkOkButton_def confirmPress_def clearError_def displayMenu_def Let_def
      split: option.splits ValueAdjuster.splits)

lemma handleButtonPress_latched:
  assumes "errorCode s > 0"
  shows "(\<exists>s'. handleButtonPress inp s = Inr s'
              \<and> cursorPosition s' = cursorPosition s \<and> currentMenuIndex s' = currentMenuIndex s
              \<and> isValueAdjustMode s' = isValueAdjustMode s
              \<and> currentValueAdjuster s' = currentValueAdjuster s
              \<and> heap s' = heap s \<and> menus s' = menus s
              \<and> (if trace s' = trace s then errorCode s' = errorCode s
                  else trace s' = trace s @ [EncoderPress] \<and> errorCode s' = 0)
              \<and> (if inputMode s = INPUT_ENCODER
                      \<and> readButton (encoderButtonTriggerType s) (pinEncoderButton inp)
                      \<and> \<not> encoderButtonState s
                      \<and> debounceDelay s
                           < millisAtTest inp
                               - (if lastEncoderButtonState s then lastDebounceTime s
                                  else millisAtEdge inp)
                  then trace s' = trace s @ [EncoderPress] \<and> errorCode s' = 0
                     \<and> errorMessage s' = [] \<and> displayMenu s' \<noteq> ErrorScreen
                  else trace s' = trace s \<and> errorCode s' = errorCode s
                     \<and> errorMessage s' = errorMessage s))"
  using assms
  by (simp add: handleButtonPress_def confirmPress_def clearError_def displayMenu_def Let_def
      split: option.splits ValueAdjuster.splits)

lemma checkOkButton_clears:
  assumes "errorCode s > 0"
  shows "(c \<and> lastButtonOkState s \<and> \<not> buttonOkState s
              \<and> debounceDelay s < t - lastDebounceTime s \<longrightarrow>
            checkOkButton c t s =
              Inr (clearError (s\<lparr>buttonOkState := True, trace := trace s @ [ButtonOk]\<rparr>)))"
  using assms by (simp add: checkOkButton_def confirmPress_def Let_def)

lemma handleButtonPress_clears:
  assumes "errorCode s > 0"
  shows "(inputMode s = INPUT_ENCODER
              \<and> readButton (encoderButtonTriggerType s) (pinEncoderButton inp)
              \<and> lastEncoderButtonState s \<and> \<not> encoderButtonState s
              \<and> debounceDelay s < millisAtTest inp - lastDebounceTime s \<longrightarrow>
            handleButtonPress inp s =
              Inr ((clearError (s\<lparr>encoderButtonState := True,
                                   trace := trace s @ [EncoderPress]\<rparr>))
                     \<lparr>lastEncoderButtonState := True\<rparr>))"
  using assms by (simp add: handleButtonPress_def confirmPress_def Let_def)

lemma block_at_rest:
  "c = lastButtonUpState s \<Longrightarrow> c = buttonUpState s \<Longrightarrow> checkUpButton c t s = s"
  "c = lastButtonDownState s \<Longrightarrow> c = buttonDownState s \<Longrightarrow> checkDownButton c t s = s"
  by (simp_all add: checkUpButton_def checkDownButton_def Let_def)

lemma checkButtons_clears:
  assumes "errorCode s > 0"
  shows "(inputMode s = INPUT_BUTTONS
              \<and> readButton (buttonUpTriggerType s) (pinUp x) = lastButtonUpState s
              \<and> lastButtonUpState s = buttonUpState s
              \<and> readButton (buttonDownTriggerType s) (pinDown x) = lastButtonDownState s
              \<and> lastButtonDownState s = buttonDownState s
              \<and> readButton (buttonOkTriggerType s) (pinOk x)
              \<and> lastButtonOkState s \<and> \<not> buttonOkState s
              \<and> debounceDelay s < millis x - lastDebounceTime s \<longrightarrow>
            (\<exists>s'. checkButtons x s = Inr s'
               \<and> errorCode s' = 0 \<and> errorMessage s' = []
               \<and> trace s' = trace s @ [ButtonOk]
               \<and> cursorPosition s' = cursorPosition s \<and> currentMenuIndex s' = currentMenuIndex s
               \<and> isValueAdjustMode s' = isValueAdjustMode s
               \<and> currentValueAdjuster s' = currentValueAdjuster s
               \<and> heap s' = heap s \<and> menus s' = menus s))"
proof (intro impI, elim conjE)
  assume m: "inputMode s = INPUT_BUTTONS"
    and u: "readButton (buttonUpTriggerType s) (pinUp x) = lastButtonUpState s"
      "lastButtonUpState s = buttonUpState s"
    and d: "readButton (buttonDownTriggerType s) (pinDown x) = lastButtonDownState s"
      "lastButtonDownState s = buttonDownState s"
    and ok: "readButton (buttonOkTriggerType s) (pinOk x)" "lastButtonOkState s"
      "\<not> buttonOkState s" "debounceDelay s < millis x - lastDebounceTime s"
  have up: "checkUpButton (lastButtonUpState s) (millis x) s = s"
    using u by (simp add: block_at_rest)
  have down: "checkDownButton (lastButtonDownState s) (millis x) s = s"
    using d by (simp add: block_at_rest)
  have okb: "checkOkButton True (millis x) s =
      Inr (clearError (s\<lparr>buttonOkState := True, trace := trace s @ [ButtonOk]\<rparr>))"
    using checkOkButton_clears [OF assms, of True "millis x"] ok by simp
  show "\<exists>s'. checkButtons x s = Inr s'
               \<and> errorCode s' = 0 \<and> errorMessage s' = []
               \<and> trace s' = trace s @ [ButtonOk]
               \<and> cursorPosition s' = cursorPosition s \<and> currentMenuIndex s' = currentMenuIndex s
               \<and> isValueAdjustMode s' = isValueAdjustMode s
               \<and> currentValueAdjuster s' = currentValueAdjuster s
               \<and> heap s' = heap s \<and> menus s' = menus s"
    using m u(1) d(1) ok(1)
    by (simp add: checkButtons_def Let_def up down okb clearError_def)
qed

lemma checkUpButton_dispatch:
  assumes "c" and "lastButtonUpState s" and "\<not> buttonUpState s"
    and "debounceDelay s < t - lastDebounceTime s"
  shows "checkUpButton c t s =
           (case adjustTarget s of
              Some p \<Rightarrow> updateAdjuster p (stepValue 1)
                          (s\<lparr>buttonUpState := True, trace := trace s @ [ButtonUp]\<rparr>)
            | None \<Rightarrow> moveUp (s\<lparr>buttonUpState := True, trace := trace s @ [ButtonUp]\<rparr>))"
  using assms by (simp add: checkUpButton_def Let_def adjustTarget_def)

lemma checkDownButton_dispatch:
  assumes "c" and "lastButtonDownState s" and "\<not> buttonDownState s"
    and "debounceDelay s < t - lastDebounceTime s"
  shows "checkDownButton c t s =
           (case adjustTarget s of
              Some p \<Rightarrow> updateAdjuster p (stepValue (-1))
                          (s\<lparr>buttonDownState := True, trace := trace s @ [ButtonDown]\<rparr>)
            | None \<Rightarrow> moveDown (s\<lparr>buttonDownState := True, trace := trace s @ [ButtonDown]\<rparr>))"
  using assms by (simp add: checkDownButton_def Let_def adjustTarget_def)

lemma block_errorCode:
  "errorCode (checkUpButton c t s) = errorCode s"
  "errorCode (checkDownButton c t s) = errorCode s"
  by (simp_all add: checkUpButton_def checkDownButton_def Let_def moveUp_frame moveDown_frame
      updateAdjuster_frame split: option.splits)

lemma handleEncoderMovement_errorCode:
  "handleEncoderMovement s = Inr s' \<Longrightarrow> errorCode s' = errorCode s"
  by (auto simp: handleEncoderMovement_def Let_def moveUp_frame moveDown_frame
      updateAdjuster_frame split: option.splits if_splits ValueAdjuster.splits)

text \<open>
  C7, as the code has it. While an error is latched (\<open>errorCode > 0\<close>):
  \<^item> \<open>displayMenu\<close> draws the error screen;
  \<^item> the OK block of \<open>checkButtons\<close> and \<open>handleButtonPress\<close> return normally and leave
    the cursor, the current menu, the edit state, the adjusters and the menus as they
    are. They dispatch a Confirm press exactly when the reading is pressed, the
    debounced level is still released and the debounce window has passed since the last
    change of a reading (for \<open>handleButtonPress\<close>, measured from the edge when the reading
    has just changed); that press is recorded, clears the error code and the message, and
    the next frame is no longer the error screen. In every other case nothing is
    dispatched and the error stays latched;
  \<^item> for a press that was already seen by the previous cycle, the state after the OK
    block is the state with the debounced level set, the press recorded and the error
    cleared, and nothing else; the same holds for the encoder button, up to the stored
    last reading;
  \<^item> a whole cycle of \<open>checkButtons\<close> in which Up and Down are at rest and the Confirm
    press is due clears the error, records the press and leaves the cursor, the current
    menu, the edit state, the adjusters and the menus as they are;
  \<^item> the Up and Down blocks and \<open>handleEncoderMovement\<close> do not look at the latch: a
    debounced Up or Down press runs \<open>moveUp\<close> or \<open>moveDown\<close> (or steps the adjuster in
    edit mode) and an encoder step is dispatched, exactly as without an error, and
    none of them changes the error code.
\<close>

theorem error_latch:
  assumes "errorCode s > 0"
  shows "displayMenu s = ErrorScreen
       \<and> (\<exists>s'. checkOkButton c t s = Inr s'
              \<and> cursorPosition s' = cursorPosition s \<and> currentMenuIndex s' = currentMenuIndex s
              \<and> isValueAdjustMode s' = isValueAdjustMode s
              \<and> currentValueAdjuster s' = currentValueAdjuster s
              \<and> heap s' = heap s \<and> menus s' = menus s
              \<and> (if trace s' = trace s then errorCode s' = errorCode s
                  else trace s' = trace s @ [ButtonOk] \<and> errorCode s' = 0)
              \<and> (if c \<and> lastButtonOkState s \<and> \<not> buttonOkState s
                      \<and> debounceDelay s < t - lastDebounceTime s
                  then trace s' = trace s @ [ButtonOk] \<and> errorCode s' = 0
                     \<and> errorMessage s' = [] \<and> displayMenu s' \<noteq> ErrorScreen
                  else trace s' = trace s \<and> errorCode s' = errorCode s
                     \<and> errorMessage s' = errorMessage s))
       \<and> (\<exists>s'. handleButtonPress inp s = Inr s'
              \<and> cursorPosition s' = cursorPosition s \<and> currentMenuIndex s' = currentMenuIndex s
              \<and> isValueAdjustMode s' = isValueAdjustMode s
              \<and> currentValueAdjuster s' = currentValueAdjuster s
              \<and> heap s' = heap s \<and> menus s' = menus s
              \<and> (if trace s' = trace s then errorCode s' = errorCode s
                  else trace s' = trace s @ [EncoderPress] \<and> errorCode s' = 0)
              \<and> (if inputMode s = INPUT_ENCODER
                      \<and> readButton (encoderButtonTriggerType s) (pinEncoderButton inp)
                      \<and> \<not> encoderButtonState s
                      \<and> debounceDelay s
                           < millisAtTest inp
                               - (if lastEncoderButtonState s then lastDebounceTime s
                                  else millisAtEdge inp)
                  then trace s' = trace s @ [EncoderPress] \<and> errorCode s' = 0
                     \<and> errorMessage s' = [] \<and> displayMenu s' \<noteq> ErrorScreen
                  else trace s' = trace s \<and> errorCode s' = errorCode s
                     \<and> errorMessage s' = errorMessage s))
       \<and> (c \<and> lastButtonUpState s \<and> \<not> buttonUpState s
              \<and> debounceDelay s < t - lastDebounceTime s \<longrightarrow>
            checkUpButton c t s =
              (case adjustTarget s of
                 Some p \<Rightarrow> updateAdjuster p (stepValue 1)
                             (s\<lparr>buttonUpState := True, trace := trace s @ [ButtonUp]\<rparr>)
               | None \<Rightarrow> moveUp (s\<lparr>buttonUpState := True, trace := trace s @ [ButtonUp]\<rparr>)))
       \<and> (c \<and> lastButtonDownState s \<and> \<not> buttonDownState s
              \<and> debounceDelay s < t - lastDebounceTime s \<longrightarrow>
            checkDownButton c t s =
              (case adjustTarget s of
                 Some p \<Rightarrow> updateAdjuster p (stepValue (-1))
                             (s\<lparr>buttonDownState := True, trace := trace s @ [ButtonDown]\<rparr>)
               | None \<Rightarrow> moveDown (s\<lparr>buttonDownState := True, trace := trace s @ [ButtonDown]\<rparr>)))
       \<and> errorCode (checkUpButton c t s) = errorCode s
       \<and> errorCode (checkDownButton c t s) = errorCode s
       \<and> (\<forall>s'. handleEncoderMovement s = Inr s' \<longrightarrow> errorCode s' = errorCode s)
       \<and> (inputMode s = INPUT_ENCODER \<and> encoder s = Some e \<and> e \<noteq> lastEncoderValue s
              \<and> encoderSensitivity s \<noteq> 0
              \<and> encoderSensitivity s
                   \<le> \<bar>encoderAccumulator s + (if e > lastEncoderValue s then 1 else -1)\<bar> \<longrightarrow>
            (\<exists>s'. handleEncoderMovement s = Inr s'
               \<and> trace s' = trace s @
                    [EncoderStep (if encoderAccumulator s
                                       + (if e > lastEncoderValue s then 1 else -1) > 0
                                  then 1 else -1)]))
       \<and> (c \<and> lastButtonOkState s \<and> \<not> buttonOkState s
              \<and> debounceDelay s < t - lastDebounceTime s \<longrightarrow>
            checkOkButton c t s =
              Inr (clearError (s\<lparr>buttonOkState := True, trace := trace s @ [ButtonOk]\<rparr>)))
       \<and> (inputMode s = INPUT_ENCODER
              \<and> readButton (encoderButtonTriggerType s) (pinEncoderButton inp)
              \<and> lastEncoderButtonState s \<and> \<not> encoderButtonState s
              \<and> debounceDelay s < millisAtTest inp - lastDebounceTime s \<longrightarrow>
            handleButtonPress inp s =
              Inr ((clearError (s\<lparr>encoderButtonState := True,
                                   trace := trace s @ [EncoderPress]\<rparr>))
                     \<lparr>lastEncoderButtonState := True\<rparr>))
       \<and> (inputMode s = INPUT_BUTTONS
              \<and> readButton (buttonUpTriggerType s) (pinUp x) = lastButtonUpState s
              \<and> lastButtonUpState s = buttonUpState s
              \<and> readButton (buttonDownTriggerType s) (pinDown x) = lastButtonDownState s
              \<and> lastButtonDownState s = buttonDownState s
              \<and> readButton (buttonOkTriggerType s) (pinOk x)
              \<and> lastButtonOkState s \<and> \<not> buttonOkState s
              \<and> debounceDelay s < millis x - lastDebounceTime s \<longrightarrow>
            (\<exists>s'. checkButtons x s = Inr s'
               \<and> errorCode s' = 0 \<and> errorMessage s' = []
               \<and> trace s' = trace s @ [ButtonOk]
               \<and> cursorPosition s' = cursorPosition s \<and> currentMenuIndex s' = currentMenuIndex s
               \<and> isValueAdjustMode s' = isValueAdjustMode s
               \<and> currentValueAdjuster s' = currentValueAdjuster s
               \<and> heap s' = heap s \<and> menus s' = menus s))"
proof -
  have "displayMenu s = ErrorScreen"
    using assms by (simp add: displayMenu_def)
  moreover have "inputMode s = INPUT_ENCODER \<and> encoder s = Some e \<and> e \<noteq> lastEncoderValue s
              \<and> encoderSensitivity s \<noteq> 0
              \<and> encoderSensitivity s
                   \<le> \<bar>encoderAccumulator s + (if e > lastEncoderValue s then 1 else -1)\<bar> \<longrightarrow>
            (\<exists>s'. handleEncoderMovement s = Inr s'
               \<and> trace s' = trace s @
                    [EncoderStep (if encoderAccumulator s
                                       + (if e > lastEncoderValue s then 1 else -1) > 0
                                  then 1 else -1)])"
    using handleEncoderMovement_at_threshold
      [of s e "encoderAccumulator s + (if e > lastEncoderValue s then 1 else -1)"]
    by blast
  ultimately show ?thesis
    using checkOkButton_latched [OF assms, of c t] handleButtonPress_latched [OF assms, of inp]
      checkUpButton_dispatch [of c s t] checkDownButton_dispatch [of c s t]
      block_errorCode [of c t s] handleEncoderMovement_errorCode [of s]
      checkOkButton_clears [OF assms, of c t] handleButtonPress_clears [OF assms, of inp]
      checkButtons_clears [OF assms, of x]
    by blast
qed

theorem error_latch_witness:
  "errorCode (setError 3 ''Sensor'' exampleButtons) > 0
   \<and> displayMenu (setError 3 ''Sensor'' exampleButtons) = ErrorScreen
   \<and> errorCode (checkDownButton True 100 (setError 3 ''Sensor'' exampleButtons)) = 3
   \<and> cursorPosition (checkDownButton True 100
        ((setError 3 ''Sensor'' exampleButtons)\<lparr>lastButtonDownState := True\<rparr>)) = 1
   \<and> checkOkButton True 100
        ((setError 3 ''Sensor'' exampleButtons)\<lparr>lastButtonOkState := True\<rparr>)
       = Inr (exampleButtons\<lparr>lastButtonOkState := True, buttonOkState := True,
                trace := [ButtonOk]\<rparr>)
   \<and> handleButtonPress \<lparr>pinEncoderButton = LOW, millisAtEdge = 100, millisAtTest = 100\<rparr>
        ((setError 3 ''Sensor'' (exampleEncoder 1))\<lparr>lastEncoderButtonState := True\<rparr>)
       = Inr ((exampleEncoder 1)\<lparr>lastEncoderButtonState := True, encoderButtonState := True,
                trace := [EncoderPress]\<rparr>)
   \<and> (\<exists>s'. checkButtons ((released 100)\<lparr>pinOk := LOW\<rparr>)
               ((setError 3 ''Sensor'' exampleButtons)\<lparr>lastButtonOkState := True\<rparr>) = Inr s'
          \<and> errorCode s' = 0 \<and> errorMessage s' = [] \<and> trace s' = [ButtonOk]
          \<and> cursorPosition s' = 0 \<and> currentMenuIndex s' = 0 \<and> \<not> isValueAdjustMode s'
          \<and> currentValueAdjuster s' = None
          \<and> heap s' = exampleHeap \<and> menus s' = exampleMenus)"
proof -
  have latched: "errorCode (setError 3 ''Sensor'' exampleButtons) > 0"
    by (simp add: setError_def)
  note w = error_latch [OF latched, where c = True and t = 100]
  have display: "displayMenu (setError 3 ''Sensor'' exampleButtons) = ErrorScreen"
    by (rule w [THEN conjunct1])
  have "errorCode (checkDownButton True 100 (setError 3 ''Sensor'' exampleButtons))
      = errorCode (setError 3 ''Sensor'' exampleButtons)"
    by (rule w [THEN conjunct2, THEN conjunct2, THEN conjunct2, THEN conjunct2, THEN conjunct2, THEN conjunct2, THEN conjunct1])
  moreover have "errorCode (setError 3 ''Sensor'' exampleButtons) = 3"
    by (simp add: setError_def)
  ultimately have down_error:
    "errorCode (checkDownButton True 100 (setError 3 ''Sensor'' exampleButtons)) = 3"
    by simp
  have down_moves: "cursorPosition (checkDownButton True 100
        ((setError 3 ''Sensor'' exampleButtons)\<lparr>lastButtonDownState := True\<rparr>)) = 1"
  proof -
    let ?s = "(setError 3 ''Sensor'' exampleButtons)\<lparr>lastButtonDownState := True\<rparr>"
    have latched': "errorCode ?s > 0" by (simp add: setError_def)
    have pressed: "True \<and> lastButtonDownState ?s \<and> \<not> buttonDownState ?s
        \<and> debounceDelay ?s < 100 - lastDebounceTime ?s"
      by (simp add: setError_def example_defs)
    note d = error_latch [OF latched', where c = True and t = 100,
        THEN conjunct2, THEN conjunct2, THEN conjunct2, THEN conjunct2, THEN conjunct1,
        THEN mp, OF pressed]
    show ?thesis
      unfolding d by (simp add: setError_def example_defs nav_defs)
  qed
  let ?ok = "(setError 3 ''Sensor'' exampleButtons)\<lparr>lastButtonOkState := True\<rparr>"
  have latched_ok: "errorCode ?ok > 0" by (simp add: setError_def)
  have ok_clears: "checkOkButton True 100 ?ok
       = Inr (exampleButtons\<lparr>lastButtonOkState := True, buttonOkState := True,
                trace := [ButtonOk]\<rparr>)"
  proof -
    have pressed: "True \<and> lastButtonOkState ?ok \<and> \<not> buttonOkState ?ok
        \<and> debounceDelay ?ok < 100 - lastDebounceTime ?ok"
      by (simp add: setError_def example_defs)
    note d = error_latch [OF latched_ok, where c = True and t = 100,
        THEN conjunct2, THEN conjunct2, THEN conjunct2, THEN conjunct2, THEN conjunct2, THEN conjunct2, THEN conjunct2, THEN conjunct2, THEN conjunct2, THEN conjunct1,
        THEN mp, OF pressed]
    show ?thesis
      unfolding d by (simp add: setError_def clearError_def example_defs)
  qed
  have encoder_clears:
    "handleButtonPress \<lparr>pinEncoderButton = LOW, millisAtEdge = 100, millisAtTest = 100\<rparr>
        ((setError 3 ''Sensor'' (exampleEncoder 1))\<lparr>lastEncoderButtonState := True\<rparr>)
       = Inr ((exampleEncoder 1)\<lparr>lastEncoderButtonState := True, encoderButtonState := True,
                trace := [EncoderPress]\<rparr>)"
  proof -
    let ?s = "(setError 3 ''Sensor'' (exampleEncoder 1))\<lparr>lastEncoderButtonState := True\<rparr>"
    let ?inp = "\<lparr>pinEncoderButton = LOW, millisAtEdge = 100, millisAtTest = 100\<rparr>"
    have latched': "errorCode ?s > 0" by (simp add: setError_def)
    have pressed: "inputMode ?s = INPUT_ENCODER
        \<and> readButton (encoderButtonTriggerType ?s) (pinEncoderButton ?inp)
        \<and> lastEncoderButtonState ?s \<and> \<not> encoderButtonState ?s
        \<and> debounceDelay ?s < millisAtTest ?inp - lastDebounceTime ?s"
      by (simp add: setError_def example_defs input_defs)
    note d = error_latch [OF latched', where inp = ?inp,
        THEN conjunct2, THEN conjunct2, THEN conjunct2, THEN conjunct2, THEN conjunct2, THEN conjunct2, THEN conjunct2, THEN conjunct2, THEN conjunct2, THEN conjunct2, THEN conjunct1,
        THEN mp, OF pressed]
    show ?thesis
      unfolding d by (simp add: setError_def clearError_def example_defs)
  qed
  have cycle_clears: "\<exists>s'. checkButtons ((released 100)\<lparr>pinOk := LOW\<rparr>) ?ok = Inr s'
          \<and> errorCode s' = 0 \<and> errorMessage s' = [] \<and> trace s' = [ButtonOk]
          \<and> cursorPosition s' = 0 \<and> currentMenuIndex s' = 0 \<and> \<not> isValueAdjustMode s'
          \<and> currentValueAdjuster s' = None
          \<and> heap s' = exampleHeap \<and> menus s' = exampleMenus"
  proof -
    let ?x = "(released 100)\<lparr>pinOk := LOW\<rparr>"
    have pressed: "inputMode ?ok = INPUT_BUTTONS
        \<and> readButton (buttonUpTriggerType ?ok) (pinUp ?x) = lastButtonUpState ?ok
        \<and> lastButtonUpState ?ok = buttonUpState ?ok
        \<and> readButton (buttonDownTriggerType ?ok) (pinDown ?x) = lastButtonDownState ?ok
        \<and> lastButtonDownState ?ok = buttonDownState ?ok
        \<and> readButton (buttonOkTriggerType ?ok) (pinOk ?x)
        \<and> lastButtonOkState ?ok \<and> \<not> buttonOkState ?ok
        \<and> debounceDelay ?ok < millis ?x - lastDebounceTime ?ok"
      by (simp add: setError_def example_defs input_defs)
    have fields: "trace ?ok = []" "cursorPosition ?ok = 0" "currentMenuIndex ?ok = 0"
      "isValueAdjustMode ?ok = False" "currentValueAdjuster ?ok = None"
      "heap ?ok = exampleHeap" "menus ?ok = exampleMenus"
      by (simp_all add: setError_def exampleButtons_def buttonModeSystem_def)
    note d = error_latch [OF latched_ok, where x = ?x,
        THEN conjunct2, THEN conjunct2, THEN conjunct2, THEN conjunct2, THEN conjunct2, THEN conjunct2, THEN conjunct2, THEN conjunct2, THEN conjunct2, THEN conjunct2, THEN conjunct2,
        THEN mp, OF pressed]
    show ?thesis
      using d unfolding fields by simp
  qed
  show ?thesis
    using latched display down_error down_moves ok_clears encoder_clears cycle_clears
    by (intro conjI)
qed

text \<open>
  The claim as stated fails for Up and Down: with error 3 latched on the example
  system, browsing the main menu with the cursor at 0, a Down press held from time 0 to
  time 100 moves the cursor to 1 while the error stays latched.
\<close>

theorem error_latch_down_counterexample:
  "runButtons [(released 0)\<lparr>pinDown := LOW\<rparr>, (released 100)\<lparr>pinDown := LOW\<rparr>]
     (setError 3 ''Sensor'' exampleButtons)
     = Inr ((setError 3 ''Sensor'' exampleButtons)\<lparr>buttonDownState := True,
              lastButtonDownState := True, cursorPosition := 1, trace := [ButtonDown]\<rparr>)
   \<and> errorCode ((setError 3 ''Sensor'' exampleButtons)\<lparr>buttonDownState := True,
              lastButtonDownState := True, cursorPosition := 1, trace := [ButtonDown]\<rparr>) = 3
   \<and> cursorPosition (setError 3 ''Sensor'' exampleButtons) = 0"
  by (simp add: example_defs nav_defs input_defs)

subsection \<open>The pending value of a boolean adjuster\<close>

lemma fold_setTempValue:
  "bValue (fold setTempValue vs b) = bValue b
   \<and> tempValue (fold setTempValue vs b) = last (tempValue b # vs)"
  by (induction vs arbitrary: b) (simp_all add: setTempValue_def)

text \<open>
  C8. For a boolean adjuster \<open>b\<close> at address \<open>p\<close>: \<open>enterValueAdjustMode\<close> makes the
  pending value equal to the stored value and leaves the stored value alone;
  \<open>setTempValue\<close> sets the pending value and never the stored one, however often it is
  called; \<open>applyTempValue\<close> copies the pending value into the stored one. So after
  entering edit mode, any calls \<open>setTempValue v\<^sub>1, \<dots>, setTempValue v\<^sub>n\<close> and
  \<open>applyTempValue\<close>, the stored value is the last selection \<open>v\<^sub>n\<close> (the value stored
  before, when no selection was made).
\<close>

theorem bool_pending_commit:
  assumes "heap s p = BoolAdj b"
  shows "heap (enterValueAdjustMode p s) p = BoolAdj (b\<lparr>tempValue := bValue b\<rparr>)
       \<and> bValue (setTempValue v b) = bValue b
       \<and> tempValue (setTempValue v b) = v
       \<and> bValue (fold setTempValue vs b) = bValue b
       \<and> bValue (applyTempValue b) = tempValue b
       \<and> bValue (applyTempValue (fold setTempValue vs (b\<lparr>tempValue := bValue b\<rparr>)))
            = last (bValue b # vs)"
proof -
  have "heap (enterValueAdjustMode p s) p = BoolAdj (b\<lparr>tempValue := bValue b\<rparr>)"
    using assms
    by (simp add: enterValueAdjustMode_def updateAdjuster_def setTempValue_def isTrue_def
          Let_def split: option.split)
  moreover have "bValue (applyTempValue (fold setTempValue vs (b\<lparr>tempValue := bValue b\<rparr>)))
            = last (bValue b # vs)"
    using fold_setTempValue [of vs "b\<lparr>tempValue := bValue b\<rparr>"]
    by (simp add: applyTempValue_def)
  ultimately show ?thesis
    using fold_setTempValue [of vs b]
    by (simp add: setTempValue_def applyTempValue_def)
qed

theorem bool_pending_commit_witness:
  "heap exampleButtons 2 = BoolAdj exampleBool
   \<and> heap (enterValueAdjustMode 2 exampleButtons) 2 = BoolAdj exampleBool
   \<and> bValue (applyTempValue (fold setTempValue [False, True] exampleBool)) = True"
  using bool_pending_commit [of exampleButtons 2 exampleBool True "[False, True]"]
  by (simp add: example_defs)

subsection \<open>Selecting an item\<close>




text \<open>
  C10. When the item under the cursor has a value adjuster, \<open>select\<close> is exactly
  \<open>enterValueAdjustMode\<close> on that adjuster: edit mode is entered with it, no callback is
  executed (the trace is as before), and the current menu, the cursor and the menus
  are as before, whatever callback or next-menu id the item carries.
\<close>

theorem select_adjuster_precedence:
  assumes "getCurrentMenu s = Some m"
    and "0 \<le> cursorPosition s" and "cursorPosition s < itemCount m"
    and "valueAdjuster (items m ! nat (cursorPosition s)) = Some p"
  shows "select s = Inr (enterValueAdjustMode p s)
       \<and> isValueAdjustMode (enterValueAdjustMode p s)
       \<and> currentValueAdjuster (enterValueAdjustMode p s) = Some p
       \<and> trace (enterValueAdjustMode p s) = trace s
       \<and> currentMenuIndex (enterValueAdjustMode p s) = currentMenuIndex s
       \<and> cursorPosition (enterValueAdjustMode p s) = cursorPosition s
       \<and> menus (enterValueAdjustMode p s) = menus s"
  using assms
  by (auto simp: select_def enterValueAdjustMode_def updateAdjuster_def Let_def
      split: option.splits ValueAdjuster.splits)

theorem select_adjuster_precedence_witness:
  "getCurrentMenu (exampleButtons\<lparr>currentMenuIndex := 1, cursorPosition := 2\<rparr>)
      = Some (exampleMenus ! 1)
   \<and> items (exampleMenus ! 1) ! 2
      = \<lparr>name = ''Both'', nextMenuId = 0, callback = Some 3, valueAdjuster = Some 2\<rparr>
   \<and> select (exampleButtons\<lparr>currentMenuIndex := 1, cursorPosition := 2\<rparr>)
      = Inr (exampleButtons\<lparr>currentMenuIndex := 1, cursorPosition := 2,
               isValueAdjustMode := True, currentValueAdjuster := Some 2\<rparr>)"
  using select_adjuster_precedence
    [of "exampleButtons\<lparr>currentMenuIndex := 1, cursorPosition := 2\<rparr>" "exampleMenus ! 1" 2]
  by (simp add: example_defs nav_defs setTempValue_def isTrue_def)

end
